theory Spec2Isabelle
  imports Complex_Main
begin

section \<open>Ripple grid with a pausable clock and a pinch knob (sketch.js)\<close>

text \<open>
  The sketch is a single-threaded p5.js program: global variables, one \<open>draw()\<close> call
  per frame and input handlers that run between frames. The embedding keeps all globals in
  one record and makes every function of the source a function on that record.

  Numbers: JavaScript numbers are IEEE doubles; they are modelled by \<open>real\<close>, so rounding
  and the values NaN and Infinity are outside the model. The library functions of p5.js and
  of \<open>Math\<close> that the sketch calls (\<open>dist\<close>, \<open>lerp\<close>, \<open>constrain\<close>, \<open>Math.ceil\<close>,
  \<open>Math.floor\<close>, \<open>%\<close>) are given their mathematical meaning below.
\<close>

subsection \<open>Constants (sketch.js, lines 10-22 and 60-61)\<close>

definition COLS :: nat where "COLS = 6"
definition ROWS :: nat where "ROWS = 8"
definition GAP :: real where "GAP = 16"
definition N :: nat where "N = 120"
definition HALF_MS :: real where "HALF_MS = 300"
definition HOLD_MIN :: real where "HOLD_MIN = 30"
definition HOLD_MAX :: real where "HOLD_MAX = 3000"
definition LONGPRESS_MS :: real where "LONGPRESS_MS = 350"
definition WAVE_SPEED_PX_PER_MS :: real where "WAVE_SPEED_PX_PER_MS = 0.8"
definition ACTIVATION_BAND :: real where "ACTIVATION_BAND = 40"
definition EMIT_INTERVAL_MS :: real where "EMIT_INTERVAL_MS = 40"
definition MAX_EMITTERS :: nat where "MAX_EMITTERS = 800"
definition KNOB_SENSITIVITY :: real where "KNOB_SENSITIVITY = 3.0"
definition rBase :: real where "rBase = 120"

named_theorems const_defs \<open>the numeric constants of the sketch\<close>

subsection \<open>Data\<close>

text \<open>A point \<open>{x, y}\<close> and an emitter \<open>{t0, x, y}\<close>.\<close>

record point =
  pt_x :: real
  pt_y :: real

record emitter =
  em_t0 :: real
  em_x :: real
  em_y :: real

text \<open>The \<open>knob\<close> object (lines 62-69).\<close>

record knob_state =
  active :: bool
  center :: point
  baseDist :: real
  lastDist :: real
  angle :: real
  enteredAt :: real

text \<open>
  All globals of the sketch. \<open>startMs\<close> and \<open>stopAtMs\<close> are the two \<open>ROWS \<times> COLS\<close>
  arrays, with the sentinels of the source: \<open>startMs\<close> is \<open>-1\<close> (not triggered), \<open>-2\<close>
  (done) or the trigger time; \<open>stopAtMs\<close> is \<open>-1\<close> (not planned) or the planned stop time.
  \<open>canvasW\<close> and \<open>canvasH\<close> are p5's \<open>width\<close> and \<open>height\<close>. The six shape caches are
  the \<open>Float32Array(N)\<close> buffers.
\<close>

record state =
  HOLD_MS :: real
  SEG_MS :: real
  CYCLE_MS :: real
  canvasW :: real
  canvasH :: real
  tileDiam :: real
  rTile :: real
  sScale :: real
  marginX :: real
  marginY :: real
  triX :: "real list"
  triY :: "real list"
  sqrX :: "real list"
  sqrY :: "real list"
  cirX :: "real list"
  cirY :: "real list"
  startMs :: "real list list"
  stopAtMs :: "real list list"
  emitters :: "emitter list"
  lastEmitMs :: real
  maxReachDist :: real
  isPointerDown :: bool
  isLongPress :: bool
  lastPointer :: point
  logicalNow :: real
  lastReal :: real
  clockPaused :: bool
  downAtMs :: real
  knob :: knob_state

subsection \<open>Library functions\<close>

text \<open>p5's \<open>dist(x1,y1,x2,y2)\<close>, \<open>lerp(a,b,t)\<close> and \<open>constrain(n,lo,hi)\<close>.\<close>

definition dist_p5 :: "real \<Rightarrow> real \<Rightarrow> real \<Rightarrow> real \<Rightarrow> real" where
  "dist_p5 x1 y1 x2 y2 = sqrt ((x2 - x1)\<^sup>2 + (y2 - y1)\<^sup>2)"

definition lerp :: "real \<Rightarrow> real \<Rightarrow> real \<Rightarrow> real" where
  "lerp a b t = t * (b - a) + a"

definition constrain :: "real \<Rightarrow> real \<Rightarrow> real \<Rightarrow> real" where
  "constrain n lo hi = max (min n hi) lo"

text \<open>
  JavaScript's \<open>a % b\<close> on numbers is the remainder of the division truncated towards
  zero (it has the sign of \<open>a\<close>). For \<open>b = 0\<close> JavaScript gives NaN; the sketch only
  divides by \<open>CYCLE_MS\<close>, \<open>SEG_MS\<close> and \<open>HALF_MS\<close>, which are positive.
\<close>

definition trunc :: "real \<Rightarrow> int" where
  "trunc v = (if 0 \<le> v then \<lfloor>v\<rfloor> else \<lceil>v\<rceil>)"

definition js_rem :: "real \<Rightarrow> real \<Rightarrow> real" where
  "js_rem a b = a - b * of_int (trunc (a / b))"

definition easeInOutCubic :: "real \<Rightarrow> real" where
  "easeInOutCubic v = (if v < 0.5 then 4 * v * v * v else 1 - (- 2 * v + 2) ^ 3 / 2)"

subsection \<open>Grid state and layout (lines 88-97, 253-272)\<close>

definition initStates :: "state \<Rightarrow> state" where
  "initStates s = s\<lparr> startMs := replicate ROWS (replicate COLS (- 1)),
                     stopAtMs := replicate ROWS (replicate COLS (- 1)) \<rparr>"

definition resetForNewGesture :: "state \<Rightarrow> state" where
  "resetForNewGesture s = (initStates s)\<lparr> emitters := [], lastEmitMs := 0 \<rparr>"

definition tileCenter :: "state \<Rightarrow> nat \<Rightarrow> nat \<Rightarrow> point" where
  "tileCenter s ix iy =
     \<lparr> pt_x = marginX s + tileDiam s * (real ix + 0.5) + GAP * real ix,
       pt_y = marginY s + tileDiam s * (real iy + 0.5) + GAP * real iy \<rparr>"

definition computeGridLayout :: "state \<Rightarrow> state" where
  "computeGridLayout s =
     (let tileDiamX = (canvasW s - GAP * (real COLS - 1)) / real COLS;
          tileDiamY = (canvasH s - GAP * (real ROWS - 1)) / real ROWS;
          td = min tileDiamX tileDiamY;
          rt = (td / (2 * 1.4142 * 0.95)) * 0.95;
          usedW = real COLS * td + (real COLS - 1) * GAP;
          usedH = real ROWS * td + (real ROWS - 1) * GAP;
          s1 = s\<lparr> tileDiam := td, rTile := rt, sScale := rt / rBase,
                  marginX := (canvasW s - usedW) * 0.5,
                  marginY := (canvasH s - usedH) * 0.5 \<rparr>;
          tl = tileCenter s1 0 0;
          br = tileCenter s1 (COLS - 1) (ROWS - 1)
      in s1\<lparr> maxReachDist :=
                dist_p5 (pt_x tl) (pt_y tl) (pt_x br) (pt_y br) + 2 * td + 200 \<rparr>)"

subsection \<open>Logical clock (lines 100-105)\<close>

text \<open>The argument \<open>realNow\<close> is the value \<open>millis()\<close> returns in this frame.\<close>

definition updateClock :: "real \<Rightarrow> state \<Rightarrow> state" where
  "updateClock realNow s =
     (let dt = realNow - lastReal s;
          s1 = (if \<not> clockPaused s then s\<lparr> logicalNow := logicalNow s + dt \<rparr> else s)
      in s1\<lparr> lastReal := realNow \<rparr>)"

subsection \<open>Emitters (lines 201-228)\<close>

definition spawnEmitter :: "real \<Rightarrow> real \<Rightarrow> real \<Rightarrow> state \<Rightarrow> state" where
  "spawnEmitter t px py s =
     (let es = emitters s @ [\<lparr> em_t0 = t, em_x = px, em_y = py \<rparr>]
      in s\<lparr> emitters := (if length es > MAX_EMITTERS
                            then drop (length es - MAX_EMITTERS) es else es),
             lastEmitMs := t \<rparr>)"

text \<open>
  The loop of \<open>hitByAnyEmitter\<close> runs \<open>i\<close> from \<open>length - 1\<close> down to \<open>0\<close>;
  \<open>hitLoop es now px py n\<close> is the loop with \<open>n\<close> indices left to visit.
\<close>

fun hitLoop :: "emitter list \<Rightarrow> real \<Rightarrow> real \<Rightarrow> real \<Rightarrow> nat \<Rightarrow> bool" where
  "hitLoop es now px py 0 = False"
| "hitLoop es now px py (Suc i) =
     (let e = es ! i; age = now - em_t0 e
      in if age < 0 then hitLoop es now px py i
         else let R = age * WAVE_SPEED_PX_PER_MS;
                  d = dist_p5 px py (em_x e) (em_y e)
              in if \<bar>d - R\<bar> \<le> ACTIVATION_BAND then True else hitLoop es now px py i)"

definition hitByAnyEmitter :: "state \<Rightarrow> real \<Rightarrow> real \<Rightarrow> real \<Rightarrow> bool" where
  "hitByAnyEmitter s now px py = hitLoop (emitters s) now px py (length (emitters s))"

text \<open>
  The loop of \<open>pruneEmitters\<close>: \<open>i\<close> runs upwards, \<open>cutv\<close> is the loop's variable \<open>cut\<close>,
  and the \<open>break\<close> leaves with \<open>cut = i\<close>.
\<close>

function pruneLoop :: "emitter list \<Rightarrow> real \<Rightarrow> real \<Rightarrow> nat \<Rightarrow> nat \<Rightarrow> nat" where
  "pruneLoop es now mr i cutv =
     (if i < length es then
        (let age = now - em_t0 (es ! i); R = age * WAVE_SPEED_PX_PER_MS
         in if R < mr then i
            else pruneLoop es now mr (i + 1) (if i = length es - 1 then length es else cutv))
      else cutv)"
  by pat_completeness auto
termination
  by (relation "measure (\<lambda>(es, now, mr, i, cutv). length es - i)") auto

definition pruneEmitters :: "real \<Rightarrow> state \<Rightarrow> state" where
  "pruneEmitters now s =
     (let cutv = pruneLoop (emitters s) now (maxReachDist s) 0 0
      in if cutv > 0 then s\<lparr> emitters := drop cutv (emitters s) \<rparr> else s)"

subsection \<open>Drawing (lines 231-252)\<close>

text \<open>
  What a tile draws is the list of the \<open>N\<close> vertices passed to \<open>vertex()\<close> between
  \<open>beginShape()\<close> and \<open>endShape(CLOSE)\<close>, relative to the tile's centre.
\<close>

type_synonym outline = "(real \<times> real) list"

definition drawShape :: "state \<Rightarrow> real list \<Rightarrow> real list \<Rightarrow> outline" where
  "drawShape s xs ys = map (\<lambda>i. (xs ! i * sScale s, ys ! i * sScale s)) [0 ..< N]"

definition drawLoopCycle :: "state \<Rightarrow> real \<Rightarrow> real \<Rightarrow> outline" where
  "drawLoopCycle s elapsedMs scale =
     (let p = js_rem elapsedMs (CYCLE_MS s);
          stage = \<lfloor>p / SEG_MS s\<rfloor>;
          pin = p - of_int stage * SEG_MS s;
          k = (if pin < HALF_MS then easeInOutCubic (pin / HALF_MS) else 1.0);
          (ax, ay, bx, by) =
            (if stage = 0 then (sqrX s, sqrY s, cirX s, cirY s)
             else if stage = 1 then (cirX s, cirY s, triX s, triY s)
             else (triX s, triY s, sqrX s, sqrY s))
      in map (\<lambda>i. (lerp (ax ! i) (bx ! i) k * scale, lerp (ay ! i) (by ! i) k * scale))
           [0 ..< N])"

subsection \<open>Simulation and rendering of one frame (lines 133-198)\<close>

definition simulateEmittersAndActivations :: "state \<Rightarrow> state" where
  "simulateEmittersAndActivations s =
     (let s1 = (if isPointerDown s \<and> \<not> isLongPress s
                   \<and> logicalNow s - downAtMs s \<ge> LONGPRESS_MS
                then spawnEmitter (logicalNow s) (pt_x (lastPointer s)) (pt_y (lastPointer s))
                       (resetForNewGesture (s\<lparr> isLongPress := True \<rparr>))
                else s);
          s2 = (if isLongPress s1 \<and> logicalNow s1 - lastEmitMs s1 \<ge> EMIT_INTERVAL_MS
                then spawnEmitter (logicalNow s1) (pt_x (lastPointer s1)) (pt_y (lastPointer s1)) s1
                else s1)
      in pruneEmitters (logicalNow s2) s2)"

text \<open>
  The body of the two nested loops of \<open>renderGrid\<close> for the tile \<open>(ix, iy)\<close>. An
  iteration reads and writes only the cells \<open>startMs[iy][ix]\<close> and \<open>stopAtMs[iy][ix]\<close>
  (and reads globals that no iteration writes), so it is given as a function from the
  state before the loops to the new contents of the two cells and the outline drawn.
  \<open>triggerTile\<close> is the first \<open>if\<close> (lines 158-163), \<open>renderTile\<close> the whole body.
\<close>

definition triggerTile :: "state \<Rightarrow> nat \<Rightarrow> nat \<Rightarrow> real \<times> real" where
  "triggerTile s iy ix =
     (let now = logicalNow s; c = tileCenter s ix iy
      in if isLongPress s \<and> startMs s ! iy ! ix < 0 \<and> hitByAnyEmitter s now (pt_x c) (pt_y c)
         then (now, - 1)
         else (startMs s ! iy ! ix, stopAtMs s ! iy ! ix))"

definition renderTile :: "state \<Rightarrow> nat \<Rightarrow> nat \<Rightarrow> real \<times> real \<times> outline" where
  "renderTile s iy ix =
     (let now = logicalNow s;
          (t0, tStop) = triggerTile s iy ix
      in if t0 = - 1 \<or> t0 = - 2 then (t0, tStop, drawShape s (sqrX s) (sqrY s))
         else
           let elapsed = now - t0
           in if isLongPress s then (t0, tStop, drawLoopCycle s elapsed (sScale s))
              else
                let stop1 = (if tStop = - 1
                             then t0 + of_int \<lceil>elapsed / CYCLE_MS s\<rceil> * CYCLE_MS s
                             else tStop)
                in if now \<ge> stop1 then (- 2, stop1, drawShape s (sqrX s) (sqrY s))
                   else (t0, stop1, drawLoopCycle s elapsed (sScale s)))"

text \<open>
  \<open>renderGrid\<close> returns the state with both arrays rewritten and the outlines drawn, row
  by row.
\<close>

definition renderGrid :: "state \<Rightarrow> state \<times> outline list list" where
  "renderGrid s =
     (let cells = map (\<lambda>iy. map (\<lambda>ix. renderTile s iy ix) [0 ..< COLS]) [0 ..< ROWS]
      in (s\<lparr> startMs := map (map fst) cells,
              stopAtMs := map (map (\<lambda>c. fst (snd c))) cells \<rparr>,
          map (map (\<lambda>c. snd (snd c))) cells))"

subsection \<open>The frame (lines 108-130)\<close>

text \<open>
  \<open>drawFrame realNow\<close> is one call of \<open>draw()\<close> in which \<open>millis()\<close> returns
  \<open>realNow\<close>. The knob overlay is painted over the grid from \<open>HOLD_MS\<close> and the knob
  object; it writes no global and is left out.
\<close>

definition drawFrame :: "real \<Rightarrow> state \<Rightarrow> state \<times> outline list list" where
  "drawFrame realNow s =
     (let s1 = updateClock realNow s;
          s2 = s1\<lparr> SEG_MS := HALF_MS + HOLD_MS s1 \<rparr>;
          s3 = s2\<lparr> CYCLE_MS := 3 * SEG_MS s2 \<rparr>
      in if active (knob s3) then renderGrid (s3\<lparr> clockPaused := True \<rparr>)
         else renderGrid (simulateEmittersAndActivations (s3\<lparr> clockPaused := False \<rparr>)))"

subsection \<open>Input handlers (lines 364-451)\<close>

definition mousePressed :: "real \<Rightarrow> real \<Rightarrow> state \<Rightarrow> state" where
  "mousePressed mouseX mouseY s =
     (if active (knob s)
      then s\<lparr> knob := (knob s)\<lparr> active := False \<rparr>, clockPaused := False \<rparr>
      else s\<lparr> isPointerDown := True, isLongPress := False, downAtMs := logicalNow s,
              lastPointer := \<lparr> pt_x = mouseX, pt_y = mouseY \<rparr> \<rparr>)"

definition mouseDragged :: "real \<Rightarrow> real \<Rightarrow> state \<Rightarrow> state" where
  "mouseDragged mouseX mouseY s = s\<lparr> lastPointer := \<lparr> pt_x = mouseX, pt_y = mouseY \<rparr> \<rparr>"

definition mouseMoved :: "real \<Rightarrow> real \<Rightarrow> state \<Rightarrow> state" where
  "mouseMoved mouseX mouseY s =
     (if isPointerDown s then s\<lparr> lastPointer := \<lparr> pt_x = mouseX, pt_y = mouseY \<rparr> \<rparr> else s)"

definition mouseReleased :: "state \<Rightarrow> state" where
  "mouseReleased s = s\<lparr> isPointerDown := False, isLongPress := False \<rparr>"

text \<open>
  \<open>enterKnobMode\<close> and \<open>updateKnobWithPinch\<close> read \<open>touches[0]\<close> and \<open>touches[1]\<close>;
  both are called only under the guard \<open>touches.length >= 2\<close>, and take the two touch
  points as arguments.
\<close>

definition enterKnobMode :: "point \<Rightarrow> point \<Rightarrow> state \<Rightarrow> state" where
  "enterKnobMode p1 p2 s =
     (let bd = dist_p5 (pt_x p1) (pt_y p1) (pt_x p2) (pt_y p2)
      in s\<lparr> knob := (knob s)\<lparr> center := \<lparr> pt_x = (pt_x p1 + pt_x p2) / 2,
                                         pt_y = (pt_y p1 + pt_y p2) / 2 \<rparr>,
                               baseDist := bd, lastDist := bd, angle := 0,
                               enteredAt := logicalNow s, active := True \<rparr>,
             clockPaused := True \<rparr>)"

definition updateKnobWithPinch :: "point \<Rightarrow> point \<Rightarrow> state \<Rightarrow> state" where
  "updateKnobWithPinch p1 p2 s =
     (let curDist = dist_p5 (pt_x p1) (pt_y p1) (pt_x p2) (pt_y p2);
          delta = curDist - lastDist (knob s)
      in s\<lparr> knob := (knob s)\<lparr> center := \<lparr> pt_x = (pt_x p1 + pt_x p2) / 2,
                                         pt_y = (pt_y p1 + pt_y p2) / 2 \<rparr>,
                               angle := angle (knob s) + delta * 0.6,
                               lastDist := curDist \<rparr>,
             HOLD_MS := constrain (HOLD_MS s + delta * KNOB_SENSITIVITY) HOLD_MIN HOLD_MAX \<rparr>)"

text \<open>
  The touch handlers get the current \<open>touches\<close> array; \<open>touchStarted\<close> also gets
  \<open>mouseX\<close> and \<open>mouseY\<close> for its fallback \<open>touches[0] || {x:mouseX, y:mouseY}\<close>.
\<close>

definition touchStarted :: "point list \<Rightarrow> real \<Rightarrow> real \<Rightarrow> state \<Rightarrow> state" where
  "touchStarted touches mouseX mouseY s =
     (case touches of
        p1 # p2 # _ \<Rightarrow> enterKnobMode p1 p2 s
      | _ \<Rightarrow>
        if active (knob s) \<and> length touches = 1
        then s\<lparr> knob := (knob s)\<lparr> active := False \<rparr>, clockPaused := False \<rparr>
        else
          let t = (case touches of [] \<Rightarrow> \<lparr> pt_x = mouseX, pt_y = mouseY \<rparr> | p # _ \<Rightarrow> p)
          in s\<lparr> isPointerDown := True, isLongPress := False, downAtMs := logicalNow s,
                 lastPointer := \<lparr> pt_x = pt_x t, pt_y = pt_y t \<rparr> \<rparr>)"

definition touchMoved :: "point list \<Rightarrow> state \<Rightarrow> state" where
  "touchMoved touches s =
     (case touches of
        [] \<Rightarrow> s
      | [p] \<Rightarrow> s\<lparr> lastPointer := \<lparr> pt_x = pt_x p, pt_y = pt_y p \<rparr> \<rparr>
      | p1 # p2 # _ \<Rightarrow>
          if active (knob s) then updateKnobWithPinch p1 p2 s
          else s\<lparr> lastPointer := \<lparr> pt_x = pt_x p1, pt_y = pt_y p1 \<rparr> \<rparr>)"

definition touchEnded :: "point list \<Rightarrow> state \<Rightarrow> state" where
  "touchEnded touches s =
     (if length touches = 0 then s\<lparr> isPointerDown := False, isLongPress := False \<rparr> else s)"

definition windowResized :: "real \<Rightarrow> real \<Rightarrow> state \<Rightarrow> state" where
  "windowResized windowWidth windowHeight s =
     computeGridLayout (s\<lparr> canvasW := windowWidth, canvasH := windowHeight \<rparr>)"

subsection \<open>Start-up and runs\<close>

text \<open>
  The globals as the script's top level leaves them (lines 14-69). The layout variables
  are \<open>undefined\<close> there and the shape caches are zero-filled; \<open>setup\<close> overwrites
  all of them before anything reads them.
\<close>

definition globals0 :: state where
  "globals0 =
     \<lparr> HOLD_MS = 1500, SEG_MS = HALF_MS + 1500, CYCLE_MS = 3 * (HALF_MS + 1500),
       canvasW = 0, canvasH = 0, tileDiam = 0, rTile = 0, sScale = 0, marginX = 0, marginY = 0,
       triX = replicate N 0, triY = replicate N 0, sqrX = replicate N 0, sqrY = replicate N 0,
       cirX = replicate N 0, cirY = replicate N 0,
       startMs = [], stopAtMs = [], emitters = [], lastEmitMs = 0, maxReachDist = 0,
       isPointerDown = False, isLongPress = False, lastPointer = \<lparr> pt_x = 0, pt_y = 0 \<rparr>,
       logicalNow = 0, lastReal = 0, clockPaused = False, downAtMs = 0,
       knob = \<lparr> active = False, center = \<lparr> pt_x = 0, pt_y = 0 \<rparr>, baseDist = 0,
                lastDist = 0, angle = 0, enteredAt = 0 \<rparr> \<rparr>"

text \<open>
  The contents of the shape caches (the resampled triangle, square and circle) play no
  role in the state machine; \<open>setupSketch\<close> (the source's \<open>setup()\<close>) takes the window size, the
  first value of \<open>millis()\<close> and the six filled buffers as arguments instead of
  recomputing the buffers with \<open>cos\<close> and \<open>sin\<close>.
\<close>

record shapeCache =
  sc_triX :: "real list"
  sc_triY :: "real list"
  sc_sqrX :: "real list"
  sc_sqrY :: "real list"
  sc_cirX :: "real list"
  sc_cirY :: "real list"

definition setupSketch :: "real \<Rightarrow> real \<Rightarrow> real \<Rightarrow> shapeCache \<Rightarrow> state" where
  "setupSketch windowWidth windowHeight millis0 sc =
     (let s1 = globals0\<lparr> canvasW := windowWidth, canvasH := windowHeight,
                         triX := sc_triX sc, triY := sc_triY sc,
                         sqrX := sc_sqrX sc, sqrY := sc_sqrY sc,
                         cirX := sc_cirX sc, cirY := sc_cirY sc \<rparr>
      in (computeGridLayout (initStates s1))\<lparr> lastReal := millis0 \<rparr>)"

text \<open>Everything that can happen to the sketch after \<open>setup\<close>.\<close>

datatype event =
    Draw real
  | MousePressed real real
  | MouseDragged real real
  | MouseMoved real real
  | MouseReleased
  | TouchStarted "point list" real real
  | TouchMoved "point list"
  | TouchEnded "point list"
  | WindowResized real real

fun step :: "event \<Rightarrow> state \<Rightarrow> state" where
  "step (Draw realNow) s = fst (drawFrame realNow s)"
| "step (MousePressed mx my) s = mousePressed mx my s"
| "step (MouseDragged mx my) s = mouseDragged mx my s"
| "step (MouseMoved mx my) s = mouseMoved mx my s"
| "step MouseReleased s = mouseReleased s"
| "step (TouchStarted ts mx my) s = touchStarted ts mx my s"
| "step (TouchMoved ts) s = touchMoved ts s"
| "step (TouchEnded ts) s = touchEnded ts s"
| "step (WindowResized w h) s = windowResized w h s"

text \<open>
  \<open>millis()\<close> never decreases and window sizes are not negative: an event is admissible in
  a state when it respects that.
\<close>

fun admissible :: "event \<Rightarrow> state \<Rightarrow> bool" where
  "admissible (Draw realNow) s = (lastReal s \<le> realNow)"
| "admissible (WindowResized w h) s = (0 \<le> w \<and> 0 \<le> h)"
| "admissible _ s = True"

fun run :: "event list \<Rightarrow> state \<Rightarrow> state" where
  "run [] s = s"
| "run (e # es) s = run es (step e s)"

fun admissibleRun :: "event list \<Rightarrow> state \<Rightarrow> bool" where
  "admissibleRun [] s = True"
| "admissibleRun (e # es) s = (admissible e s \<and> admissibleRun es (step e s))"

inductive reachable :: "state \<Rightarrow> bool" where
  reach_setup: "0 \<le> w \<Longrightarrow> 0 \<le> h \<Longrightarrow> 0 \<le> m \<Longrightarrow> reachable (setupSketch w h m sc)"
| reach_step: "reachable s \<Longrightarrow> admissible e s \<Longrightarrow> reachable (step e s)"

subsection \<open>Notions used to state the properties\<close>

text \<open>
  The frame in which a new gesture's long press begins: the first branch of
  \<open>simulateEmittersAndActivations\<close> is taken, which calls \<open>resetForNewGesture\<close>.
\<close>

fun longPressBegins :: "event \<Rightarrow> state \<Rightarrow> bool" where
  "longPressBegins (Draw realNow) s =
     (\<not> active (knob s) \<and> isPointerDown s \<and> \<not> isLongPress s
      \<and> logicalNow (updateClock realNow s) - downAtMs s \<ge> LONGPRESS_MS)"
| "longPressBegins _ s = False"

fun noNewGesture :: "event list \<Rightarrow> state \<Rightarrow> bool" where
  "noNewGesture [] s = True"
| "noNewGesture (e # es) s = (\<not> longPressBegins e s \<and> noNewGesture es (step e s))"

text \<open>
  The state in which \<open>draw()\<close> calls \<open>renderGrid\<close>: the clock is updated, the timing is
  derived, and outside knob mode the emitters are simulated.
\<close>

definition preRender :: "real \<Rightarrow> state \<Rightarrow> state" where
  "preRender realNow s =
     (let s1 = updateClock realNow s;
          s2 = s1\<lparr> SEG_MS := HALF_MS + HOLD_MS s1 \<rparr>;
          s3 = s2\<lparr> CYCLE_MS := 3 * SEG_MS s2 \<rparr>
      in if active (knob s3) then s3\<lparr> clockPaused := True \<rparr>
         else simulateEmittersAndActivations (s3\<lparr> clockPaused := False \<rparr>))"

text \<open>
  Invariants. The two arrays have \<open>ROWS\<close> rows of \<open>COLS\<close> cells; the clock is not
  negative; a cell of \<open>startMs\<close> is a sentinel or a trigger time that is not in the future;
  and during a long press no tile is done and no stop is planned.
\<close>

definition gridShaped :: "real list list \<Rightarrow> bool" where
  "gridShaped g \<longleftrightarrow> length g = ROWS \<and> (\<forall>row \<in> set g. length row = COLS)"

definition tilesInv :: "state \<Rightarrow> bool" where
  "tilesInv s \<longleftrightarrow>
     gridShaped (startMs s) \<and> gridShaped (stopAtMs s) \<and> 0 \<le> logicalNow s
     \<and> (\<forall>iy<ROWS. \<forall>ix<COLS.
           startMs s ! iy ! ix = - 1 \<or> startMs s ! iy ! ix = - 2
           \<or> (0 \<le> startMs s ! iy ! ix \<and> startMs s ! iy ! ix \<le> logicalNow s))
     \<and> (isLongPress s \<longrightarrow>
           (\<forall>iy<ROWS. \<forall>ix<COLS. startMs s ! iy ! ix \<noteq> - 2 \<and> stopAtMs s ! iy ! ix = - 1))"

definition sketchInv :: "state \<Rightarrow> bool" where
  "sketchInv s \<longleftrightarrow>
     tilesInv s \<and> HOLD_MIN \<le> HOLD_MS s \<and> HOLD_MS s \<le> HOLD_MAX \<and> 0 < CYCLE_MS s
     \<and> active (knob s) = clockPaused s \<and> 172 \<le> maxReachDist s"

text \<open>The phase of a tile read off \<open>startMs\<close>: 0 unset, 1 triggered, 2 done.\<close>

definition tilePhase :: "real \<Rightarrow> nat" where
  "tilePhase a = (if a = - 1 then 0 else if a = - 2 then 2 else 1)"

text \<open>The knob stays active after every event of a run.\<close>

fun staysTuning :: "event list \<Rightarrow> state \<Rightarrow> bool" where
  "staysTuning [] s = True"
| "staysTuning (e # es) s = (active (knob (step e s)) \<and> staysTuning es (step e s))"

text \<open>
  The clock as the specification describes it, on the events alone: \<open>prev\<close> is the
  wall-clock time of the previous frame (of \<open>setup\<close> at first), \<open>paused\<close> the pause flag.
  A frame contributes its wall-clock delta when the clock is not paused; a touch start with
  two or more contacts pauses, a click or a single-contact touch start resumes.
\<close>

fun unpausedDeltas :: "real \<Rightarrow> bool \<Rightarrow> event list \<Rightarrow> real" where
  "unpausedDeltas prev paused [] = 0"
| "unpausedDeltas prev paused (Draw realNow # es) =
     (if paused then 0 else realNow - prev) + unpausedDeltas realNow paused es"
| "unpausedDeltas prev paused (MousePressed mx my # es) = unpausedDeltas prev False es"
| "unpausedDeltas prev paused (TouchStarted ts mx my # es) =
     unpausedDeltas prev
       (if length ts \<ge> 2 then True else if length ts = 1 then False else paused) es"
| "unpausedDeltas prev paused (e # es) = unpausedDeltas prev paused es"

text \<open>\<open>HOLD_MS\<close> has the value \<open>h\<close> in every state of a run.\<close>

fun holdConstant :: "real \<Rightarrow> event list \<Rightarrow> state \<Rightarrow> bool" where
  "holdConstant h [] s = (HOLD_MS s = h)"
| "holdConstant h (e # es) s = (HOLD_MS s = h \<and> holdConstant h es (step e s))"

text \<open>A sequence of pinch updates, each with its two touch points.\<close>

fun pinchUpdates :: "(point \<times> point) list \<Rightarrow> state \<Rightarrow> state" where
  "pinchUpdates [] s = s"
| "pinchUpdates ((p1, p2) # ps) s = pinchUpdates ps (updateKnobWithPinch p1 p2 s)"

text \<open>
  A concrete start: an 800 by 600 window, \<open>millis() = 0\<close>, and caches filled with
  constants that tell the three shapes apart.
\<close>

definition demoCache :: shapeCache where
  "demoCache = \<lparr> sc_triX = replicate N 3, sc_triY = replicate N (- 3),
                 sc_sqrX = replicate N 1, sc_sqrY = replicate N (- 1),
                 sc_cirX = replicate N 2, sc_cirY = replicate N (- 2) \<rparr>"

definition demoStart :: state where
  "demoStart = setupSketch 800 600 0 demoCache"

text \<open>
  A concrete gesture on it: a frame at 650 ms, a press on the centre \<open>(207.5, 30.5)\<close> of
  tile \<open>(0, 0)\<close>, the frame at 1000 ms that detects the long press, and the release.
\<close>

definition demoPressed :: state where
  "demoPressed = step (MousePressed 207.5 30.5) (step (Draw 650) demoStart)"

definition demoLongPress :: state where
  "demoLongPress = step (Draw 1000) demoPressed"

definition demoReleased :: state where
  "demoReleased = step MouseReleased demoLongPress"

text \<open>
  After the release: the frame at 2000 ms, then two fingers 1000 px apart enter knob mode,
  pinch to 10 px apart, and a click leaves knob mode.
\<close>

definition demoRetuned :: state where
  "demoRetuned =
     run [Draw 2000,
          TouchStarted [\<lparr>pt_x = 0, pt_y = 0\<rparr>, \<lparr>pt_x = 1000, pt_y = 0\<rparr>] 0 0,
          TouchMoved [\<lparr>pt_x = 0, pt_y = 0\<rparr>, \<lparr>pt_x = 10, pt_y = 0\<rparr>],
          MousePressed 0 0] demoReleased"

section \<open>Properties\<close>

lemmas sketch_constants [const_defs] =
  COLS_def ROWS_def GAP_def N_def HALF_MS_def HOLD_MIN_def HOLD_MAX_def LONGPRESS_MS_def
  WAVE_SPEED_PX_PER_MS_def ACTIVATION_BAND_def EMIT_INTERVAL_MS_def MAX_EMITTERS_def
  KNOB_SENSITIVITY_def rBase_def

declare pruneLoop.simps [simp del]

subsection \<open>Fields that the functions leave alone\<close>

lemma logicalNow_renderGrid: "logicalNow (fst (renderGrid s)) = logicalNow s"
  by (simp add: renderGrid_def Let_def)

lemma knob_renderGrid: "knob (fst (renderGrid s)) = knob s"
  by (simp add: renderGrid_def Let_def)

lemma clockPaused_renderGrid: "clockPaused (fst (renderGrid s)) = clockPaused s"
  by (simp add: renderGrid_def Let_def)

lemma lastReal_renderGrid: "lastReal (fst (renderGrid s)) = lastReal s"
  by (simp add: renderGrid_def Let_def)

lemma spawnEmitter_other:
  "logicalNow (spawnEmitter t a b s) = logicalNow s"
  "knob (spawnEmitter t a b s) = knob s"
  "clockPaused (spawnEmitter t a b s) = clockPaused s"
  "lastReal (spawnEmitter t a b s) = lastReal s"
  "HOLD_MS (spawnEmitter t a b s) = HOLD_MS s"
  "isLongPress (spawnEmitter t a b s) = isLongPress s"
  "isPointerDown (spawnEmitter t a b s) = isPointerDown s"
  "downAtMs (spawnEmitter t a b s) = downAtMs s"
  "startMs (spawnEmitter t a b s) = startMs s"
  "stopAtMs (spawnEmitter t a b s) = stopAtMs s"
  "lastPointer (spawnEmitter t a b s) = lastPointer s"
  "maxReachDist (spawnEmitter t a b s) = maxReachDist s"
  "CYCLE_MS (spawnEmitter t a b s) = CYCLE_MS s"
  "SEG_MS (spawnEmitter t a b s) = SEG_MS s"
  by (simp_all add: spawnEmitter_def Let_def)

lemma pruneEmitters_other:
  "logicalNow (pruneEmitters t s) = logicalNow s"
  "knob (pruneEmitters t s) = knob s"
  "clockPaused (pruneEmitters t s) = clockPaused s"
  "lastReal (pruneEmitters t s) = lastReal s"
  "HOLD_MS (pruneEmitters t s) = HOLD_MS s"
  "isLongPress (pruneEmitters t s) = isLongPress s"
  "isPointerDown (pruneEmitters t s) = isPointerDown s"
  "downAtMs (pruneEmitters t s) = downAtMs s"
  "startMs (pruneEmitters t s) = startMs s"
  "stopAtMs (pruneEmitters t s) = stopAtMs s"
  "lastPointer (pruneEmitters t s) = lastPointer s"
  "maxReachDist (pruneEmitters t s) = maxReachDist s"
  "lastEmitMs (pruneEmitters t s) = lastEmitMs s"
  "CYCLE_MS (pruneEmitters t s) = CYCLE_MS s"
  "SEG_MS (pruneEmitters t s) = SEG_MS s"
  by (simp_all add: pruneEmitters_def Let_def)

lemma simulate_other:
  "logicalNow (simulateEmittersAndActivations s) = logicalNow s"
  "knob (simulateEmittersAndActivations s) = knob s"
  "clockPaused (simulateEmittersAndActivations s) = clockPaused s"
  "lastReal (simulateEmittersAndActivations s) = lastReal s"
  "HOLD_MS (simulateEmittersAndActivations s) = HOLD_MS s"
  "isPointerDown (simulateEmittersAndActivations s) = isPointerDown s"
  "downAtMs (simulateEmittersAndActivations s) = downAtMs s"
  "lastPointer (simulateEmittersAndActivations s) = lastPointer s"
  "maxReachDist (simulateEmittersAndActivations s) = maxReachDist s"
  "CYCLE_MS (simulateEmittersAndActivations s) = CYCLE_MS s"
  "SEG_MS (simulateEmittersAndActivations s) = SEG_MS s"
  by (simp_all add: simulateEmittersAndActivations_def Let_def pruneEmitters_other
      spawnEmitter_other resetForNewGesture_def initStates_def)

lemma drawFrame_clock:
  "logicalNow (fst (drawFrame r s)) = logicalNow (updateClock r s)"
  "lastReal (fst (drawFrame r s)) = r"
  "clockPaused (fst (drawFrame r s)) = active (knob s)"
  "knob (fst (drawFrame r s)) = knob s"
  "HOLD_MS (fst (drawFrame r s)) = HOLD_MS s"
  by (simp_all add: drawFrame_def Let_def logicalNow_renderGrid lastReal_renderGrid
      clockPaused_renderGrid knob_renderGrid simulate_other updateClock_def renderGrid_def)


lemma handlers_logicalNow:
  "logicalNow (mousePressed mx my s) = logicalNow s"
  "logicalNow (mouseDragged mx my s) = logicalNow s"
  "logicalNow (mouseMoved mx my s) = logicalNow s"
  "logicalNow (mouseReleased s) = logicalNow s"
  "logicalNow (enterKnobMode p1 p2 s) = logicalNow s"
  "logicalNow (updateKnobWithPinch p1 p2 s) = logicalNow s"
  "logicalNow (touchStarted ts mx my s) = logicalNow s"
  "logicalNow (touchMoved ts s) = logicalNow s"
  "logicalNow (touchEnded ts s) = logicalNow s"
  "logicalNow (windowResized w h s) = logicalNow s"
  by (simp_all add: mousePressed_def mouseDragged_def mouseMoved_def mouseReleased_def
      enterKnobMode_def updateKnobWithPinch_def touchStarted_def touchMoved_def
      touchEnded_def windowResized_def computeGridLayout_def Let_def
      split: list.splits)

lemma handlers_lastReal:
  "lastReal (mousePressed mx my s) = lastReal s"
  "lastReal (mouseDragged mx my s) = lastReal s"
  "lastReal (mouseMoved mx my s) = lastReal s"
  "lastReal (mouseReleased s) = lastReal s"
  "lastReal (touchStarted ts mx my s) = lastReal s"
  "lastReal (touchMoved ts s) = lastReal s"
  "lastReal (touchEnded ts s) = lastReal s"
  "lastReal (windowResized w h s) = lastReal s"
  by (simp_all add: mousePressed_def mouseDragged_def mouseMoved_def mouseReleased_def
      enterKnobMode_def updateKnobWithPinch_def touchStarted_def touchMoved_def
      touchEnded_def windowResized_def computeGridLayout_def Let_def
      split: list.splits)

lemma step_sync:
  "active (knob s) = clockPaused s \<Longrightarrow> active (knob (step e s)) = clockPaused (step e s)"
  by (cases e)
     (simp_all add: drawFrame_clock mousePressed_def mouseDragged_def mouseMoved_def
       mouseReleased_def enterKnobMode_def updateKnobWithPinch_def touchStarted_def
       touchMoved_def touchEnded_def windowResized_def computeGridLayout_def Let_def
       split: list.splits)

lemma setup_sync: "active (knob (setupSketch w h m sc)) = clockPaused (setupSketch w h m sc)"
  by (simp add: setupSketch_def computeGridLayout_def initStates_def globals0_def Let_def)

lemma reachable_sync: "reachable s \<Longrightarrow> active (knob s) = clockPaused s"
  by (induction rule: reachable.induct) (simp_all add: setup_sync step_sync del: step.simps)

lemma step_logicalNow_paused:
  assumes "active (knob s)" "clockPaused s"
  shows "logicalNow (step e s) = logicalNow s"
  using assms by (cases e) (simp_all add: drawFrame_clock handlers_logicalNow updateClock_def)

lemma staysTuning_logicalNow:
  "active (knob s) \<Longrightarrow> clockPaused s \<Longrightarrow> staysTuning evs s
     \<Longrightarrow> logicalNow (run evs s) = logicalNow s"
proof (induction evs arbitrary: s)
  case Nil
  then show ?case by simp
next
  case (Cons e evs)
  have sync: "active (knob (step e s)) = clockPaused (step e s)"
    using Cons.prems(1,2) by (intro step_sync) simp
  have act: "active (knob (step e s))" using Cons.prems(3) by simp
  have "logicalNow (run evs (step e s)) = logicalNow (step e s)"
    using Cons.IH[of "step e s"] act sync Cons.prems(3) by simp
  then show ?case using step_logicalNow_paused[OF Cons.prems(1,2)] by simp
qed

lemma frames_stay_tuning: "active (knob s) \<Longrightarrow> staysTuning (map Draw rs) s"
  by (induction rs arbitrary: s) (simp_all add: drawFrame_clock)

lemma run_clock_spec:
  "active (knob s) = clockPaused s \<Longrightarrow>
     logicalNow (run evs s) = logicalNow s + unpausedDeltas (lastReal s) (clockPaused s) evs"
proof (induction evs arbitrary: s)
  case Nil
  then show ?case by simp
next
  case (Cons e evs)
  have sync: "active (knob (step e s)) = clockPaused (step e s)"
    using Cons.prems by (rule step_sync)
  note IH = Cons.IH[OF sync]
  show ?case
  proof (cases e)
    case (Draw r)
    then show ?thesis using IH Cons.prems
      by (simp add: drawFrame_clock updateClock_def)
  next
    case (MousePressed mx my)
    then show ?thesis using IH Cons.prems
      by (simp add: handlers_logicalNow handlers_lastReal) (simp add: mousePressed_def)
  next
    case (TouchStarted ts mx my)
    then show ?thesis using IH Cons.prems
      by (simp add: handlers_logicalNow handlers_lastReal)
         (auto simp add: touchStarted_def enterKnobMode_def Let_def split: list.splits)
  next
    case (TouchMoved ts)
    then show ?thesis using IH Cons.prems
      by (simp add: handlers_logicalNow handlers_lastReal)
         (auto simp add: touchMoved_def updateKnobWithPinch_def Let_def split: list.splits)
  qed (use IH Cons.prems in \<open>simp_all add: handlers_logicalNow handlers_lastReal
        mouseDragged_def mouseMoved_def mouseReleased_def touchEnded_def windowResized_def
        computeGridLayout_def Let_def\<close>)
qed


lemma run_append: "run (as @ bs) s = run bs (run as s)"
  by (induction as arbitrary: s) simp_all

lemma paused_frames:
  "active (knob s) \<Longrightarrow> clockPaused s \<Longrightarrow>
     active (knob (run (map Draw rs) s)) \<and> clockPaused (run (map Draw rs) s)
     \<and> logicalNow (run (map Draw rs) s) = logicalNow s
     \<and> lastReal (run (map Draw rs) s) = last (lastReal s # rs)"
  by (induction rs arbitrary: s) (simp_all add: drawFrame_clock updateClock_def)

lemma setup_clock:
  "logicalNow (setupSketch w h m sc) = 0" "lastReal (setupSketch w h m sc) = m"
  "clockPaused (setupSketch w h m sc) = False" "active (knob (setupSketch w h m sc)) = False"
  "HOLD_MS (setupSketch w h m sc) = 1500"
  by (simp_all add: setupSketch_def computeGridLayout_def initStates_def globals0_def Let_def)

lemma demoStart_reachable: "reachable demoStart"
  unfolding demoStart_def by (rule reach_setup) simp_all

lemma demoStart_clock:
  "logicalNow demoStart = 0" "lastReal demoStart = 0" "clockPaused demoStart = False"
  "active (knob demoStart) = False" "HOLD_MS demoStart = 1500"
  by (simp_all add: demoStart_def setup_clock)

lemma constrain_range: "lo \<le> hi \<Longrightarrow> lo \<le> constrain n lo hi \<and> constrain n lo hi \<le> hi"
  by (simp add: constrain_def)

lemma hold_after_pinch:
  "HOLD_MIN \<le> HOLD_MS (updateKnobWithPinch p1 p2 s)
   \<and> HOLD_MS (updateKnobWithPinch p1 p2 s) \<le> HOLD_MAX"
  using constrain_range[of HOLD_MIN HOLD_MAX]
  by (simp add: updateKnobWithPinch_def Let_def HOLD_MIN_def HOLD_MAX_def)

lemma hold_pinchUpdates:
  "HOLD_MIN \<le> HOLD_MS s \<Longrightarrow> HOLD_MS s \<le> HOLD_MAX \<Longrightarrow>
     HOLD_MIN \<le> HOLD_MS (pinchUpdates ps s) \<and> HOLD_MS (pinchUpdates ps s) \<le> HOLD_MAX"
proof (induction ps arbitrary: s)
  case Nil
  then show ?case by simp
next
  case (Cons p ps)
  obtain p1 p2 where p: "p = (p1, p2)" by (cases p)
  show ?case using Cons.IH[of "updateKnobWithPinch p1 p2 s"] hold_after_pinch[of p1 p2 s]
    by (simp add: p)
qed

lemma hold_step:
  "HOLD_MIN \<le> HOLD_MS s \<Longrightarrow> HOLD_MS s \<le> HOLD_MAX \<Longrightarrow>
     HOLD_MIN \<le> HOLD_MS (step e s) \<and> HOLD_MS (step e s) \<le> HOLD_MAX"
  using hold_after_pinch[of _ _ s]
  by (cases e)
     (auto simp add: drawFrame_clock mousePressed_def mouseDragged_def mouseMoved_def
       mouseReleased_def enterKnobMode_def touchStarted_def
       touchMoved_def touchEnded_def windowResized_def computeGridLayout_def Let_def
       split: list.splits)

lemma hold_run:
  "HOLD_MIN \<le> HOLD_MS s \<Longrightarrow> HOLD_MS s \<le> HOLD_MAX \<Longrightarrow>
     HOLD_MIN \<le> HOLD_MS (run evs s) \<and> HOLD_MS (run evs s) \<le> HOLD_MAX"
proof (induction evs arbitrary: s)
  case Nil
  then show ?case by simp
next
  case (Cons e evs)
  show ?case using Cons.IH[of "step e s"] hold_step[OF Cons.prems, of e] by simp
qed

subsection \<open>The loops of the emitter field and the outline at a cycle boundary\<close>

lemma pruneLoop_takeWhile:
  "pruneLoop es now mr i cutv =
     (if i < length es
      then i + length (takeWhile (\<lambda>e. mr \<le> (now - em_t0 e) * WAVE_SPEED_PX_PER_MS) (drop i es))
      else cutv)"
proof (induction es now mr i cutv rule: pruneLoop.induct)
  case (1 es now mr i cutv)
  show ?case
  proof (cases "i < length es")
    case False
    then show ?thesis by (simp add: pruneLoop.simps[of es now mr i cutv])
  next
    case True
    then have d: "drop i es = es ! i # drop (Suc i) es"
      by (simp add: Cons_nth_drop_Suc)
    show ?thesis
    proof (cases "(now - em_t0 (es ! i)) * WAVE_SPEED_PX_PER_MS < mr")
      case True
      with \<open>i < length es\<close> d show ?thesis
        by (simp add: pruneLoop.simps[of es now mr i cutv])
    next
      case False
      with \<open>i < length es\<close> d "1.IH"[OF \<open>i < length es\<close> refl refl False] show ?thesis
        by (auto simp add: pruneLoop.simps[of es now mr i cutv] not_less)
    qed
  qed
qed

lemma pruneEmitters_dropWhile:
  "emitters (pruneEmitters now s)
     = dropWhile (\<lambda>e. maxReachDist s \<le> (now - em_t0 e) * WAVE_SPEED_PX_PER_MS) (emitters s)"
  by (simp add: pruneEmitters_def Let_def pruneLoop_takeWhile dropWhile_eq_drop)

lemma takeWhile_longest:
  assumes "n \<le> length xs" "\<forall>x \<in> set (take n xs). P x"
  shows "n \<le> length (takeWhile P xs)"
proof (rule ccontr)
  assume "\<not> n \<le> length (takeWhile P xs)"
  then have k: "length (takeWhile P xs) < n" by simp
  with assms(1) have "length (takeWhile P xs) < length xs" by simp
  then have "\<not> P (xs ! length (takeWhile P xs))" by (rule nth_length_takeWhile)
  moreover have "xs ! length (takeWhile P xs) \<in> set (take n xs)"
    using k assms(1) by (auto simp add: in_set_conv_nth intro!: exI[of _ "length (takeWhile P xs)"])
  ultimately show False using assms(2) by blast
qed

lemma hitLoop_iff:
  "n \<le> length es \<Longrightarrow>
     hitLoop es now px py n \<longleftrightarrow>
       (\<exists>i<n. 0 \<le> now - em_t0 (es ! i)
          \<and> \<bar>dist_p5 px py (em_x (es ! i)) (em_y (es ! i))
                - (now - em_t0 (es ! i)) * WAVE_SPEED_PX_PER_MS\<bar> \<le> ACTIVATION_BAND)"
proof (induction n)
  case 0
  then show ?case by simp
next
  case (Suc n)
  then have IH: "hitLoop es now px py n \<longleftrightarrow>
       (\<exists>i<n. 0 \<le> now - em_t0 (es ! i)
          \<and> \<bar>dist_p5 px py (em_x (es ! i)) (em_y (es ! i))
                - (now - em_t0 (es ! i)) * WAVE_SPEED_PX_PER_MS\<bar> \<le> ACTIVATION_BAND)"
    by simp
  show ?case
    unfolding hitLoop.simps Let_def IH less_Suc_eq by (auto simp add: not_less)
qed

lemma hitByAnyEmitter_iff:
  "hitByAnyEmitter s now px py \<longleftrightarrow>
     (\<exists>e \<in> set (emitters s). 0 \<le> now - em_t0 e
        \<and> \<bar>dist_p5 px py (em_x e) (em_y e) - (now - em_t0 e) * WAVE_SPEED_PX_PER_MS\<bar>
             \<le> ACTIVATION_BAND)"
  unfolding hitByAnyEmitter_def by (simp add: hitLoop_iff Bex_def in_set_conv_nth) blast

lemma band_at_origin:
  "0 \<le> t \<and> \<bar>0 - t * WAVE_SPEED_PX_PER_MS\<bar> \<le> ACTIVATION_BAND
     \<longleftrightarrow> 0 \<le> t \<and> t \<le> ACTIVATION_BAND / WAVE_SPEED_PX_PER_MS"
  unfolding WAVE_SPEED_PX_PER_MS_def ACTIVATION_BAND_def by (simp add: abs_le_iff) linarith

lemma band_at_100:
  "0 \<le> t \<and> \<bar>100 - t * WAVE_SPEED_PX_PER_MS\<bar> \<le> ACTIVATION_BAND
     \<longleftrightarrow> 75 \<le> t \<and> t \<le> 175"
  unfolding WAVE_SPEED_PX_PER_MS_def ACTIVATION_BAND_def by (simp add: abs_le_iff) linarith

lemma dist_p5_self: "dist_p5 a b a b = 0"
  by (simp add: dist_p5_def)

lemma dist_p5_100: "dist_p5 100 0 0 0 = 100"
proof -
  have "sqrt ((100::real)\<^sup>2) = 100" by (rule real_sqrt_unique) simp_all
  then show ?thesis by (simp add: dist_p5_def)
qed

lemma drawLoopCycle_at_zero:
  assumes "js_rem elapsedMs (CYCLE_MS s) = 0"
  shows "drawLoopCycle s elapsedMs scale
           = map (\<lambda>i. (sqrX s ! i * scale, sqrY s ! i * scale)) [0 ..< N]"
  using assms
  by (simp add: drawLoopCycle_def Let_def HALF_MS_def easeInOutCubic_def lerp_def)

lemma renderTile_at_boundary:
  assumes "js_rem (logicalNow s - fst (triggerTile s iy ix)) (CYCLE_MS s) = 0"
  shows "snd (snd (renderTile s iy ix)) = drawShape s (sqrX s) (sqrY s)"
proof -
  have "drawLoopCycle s (logicalNow s - fst (triggerTile s iy ix)) (sScale s)
          = drawShape s (sqrX s) (sqrY s)"
    using assms by (simp add: drawLoopCycle_at_zero drawShape_def)
  then show ?thesis
    by (simp add: renderTile_def Let_def split_def)
qed

lemma demoStart_timing:
  "SEG_MS demoStart = 1800" "CYCLE_MS demoStart = 5400"
  by (simp_all add: demoStart_def setupSketch_def computeGridLayout_def initStates_def
      globals0_def Let_def HALF_MS_def)

subsection \<open>Frames, tiles and the invariants of reachable states\<close>

lemma drawFrame_preRender: "drawFrame realNow s = renderGrid (preRender realNow s)"
  by (simp add: drawFrame_def preRender_def Let_def)

lemma renderGrid_cells:
  assumes "iy < ROWS" "ix < COLS"
  shows "startMs (fst (renderGrid s)) ! iy ! ix = fst (renderTile s iy ix)"
    and "stopAtMs (fst (renderGrid s)) ! iy ! ix = fst (snd (renderTile s iy ix))"
    and "snd (renderGrid s) ! iy ! ix = snd (snd (renderTile s iy ix))"
  using assms by (simp_all add: renderGrid_def Let_def)

lemma renderGrid_shaped:
  "gridShaped (startMs (fst (renderGrid s)))" "gridShaped (stopAtMs (fst (renderGrid s)))"
  by (auto simp add: renderGrid_def Let_def gridShaped_def)

lemma renderGrid_other:
  "isLongPress (fst (renderGrid s)) = isLongPress s"
  "isPointerDown (fst (renderGrid s)) = isPointerDown s"
  "emitters (fst (renderGrid s)) = emitters s"
  "lastEmitMs (fst (renderGrid s)) = lastEmitMs s"
  "maxReachDist (fst (renderGrid s)) = maxReachDist s"
  "HOLD_MS (fst (renderGrid s)) = HOLD_MS s"
  "CYCLE_MS (fst (renderGrid s)) = CYCLE_MS s"
  "SEG_MS (fst (renderGrid s)) = SEG_MS s"
  "downAtMs (fst (renderGrid s)) = downAtMs s"
  "lastPointer (fst (renderGrid s)) = lastPointer s"
  "sScale (fst (renderGrid s)) = sScale s"
  "sqrX (fst (renderGrid s)) = sqrX s" "sqrY (fst (renderGrid s)) = sqrY s"
  "cirX (fst (renderGrid s)) = cirX s" "cirY (fst (renderGrid s)) = cirY s"
  "triX (fst (renderGrid s)) = triX s" "triY (fst (renderGrid s)) = triY s"
  "tileDiam (fst (renderGrid s)) = tileDiam s"
  "marginX (fst (renderGrid s)) = marginX s" "marginY (fst (renderGrid s)) = marginY s"
  by (simp_all add: renderGrid_def Let_def)

lemma renderTile_longPress:
  assumes "isLongPress s"
  shows "fst (renderTile s iy ix)
           = (if startMs s ! iy ! ix < 0
                 \<and> hitByAnyEmitter s (logicalNow s) (pt_x (tileCenter s ix iy))
                      (pt_y (tileCenter s ix iy))
              then logicalNow s else startMs s ! iy ! ix)"
    and "fst (snd (renderTile s iy ix))
           = (if startMs s ! iy ! ix < 0
                 \<and> hitByAnyEmitter s (logicalNow s) (pt_x (tileCenter s ix iy))
                      (pt_y (tileCenter s ix iy))
              then - 1 else stopAtMs s ! iy ! ix)"
  using assms by (simp_all add: renderTile_def triggerTile_def Let_def)

lemma renderTile_released:
  assumes "\<not> isLongPress s"
  shows "fst (snd (renderTile s iy ix))
           = (if startMs s ! iy ! ix = - 1 \<or> startMs s ! iy ! ix = - 2
                 \<or> stopAtMs s ! iy ! ix \<noteq> - 1
              then stopAtMs s ! iy ! ix
              else startMs s ! iy ! ix
                   + of_int \<lceil>(logicalNow s - startMs s ! iy ! ix) / CYCLE_MS s\<rceil> * CYCLE_MS s)"
    and "fst (renderTile s iy ix)
           = (if startMs s ! iy ! ix = - 1 \<or> startMs s ! iy ! ix = - 2
              then startMs s ! iy ! ix
              else if logicalNow s \<ge> fst (snd (renderTile s iy ix)) then - 2
              else startMs s ! iy ! ix)"
    and "snd (snd (renderTile s iy ix))
           = (if startMs s ! iy ! ix = - 1 \<or> startMs s ! iy ! ix = - 2
                 \<or> logicalNow s \<ge> fst (snd (renderTile s iy ix))
              then drawShape s (sqrX s) (sqrY s)
              else drawLoopCycle s (logicalNow s - startMs s ! iy ! ix) (sScale s))"
  using assms by (simp_all add: renderTile_def triggerTile_def Let_def)

lemma tilesInv_renderGrid:
  assumes "tilesInv s"
  shows "tilesInv (fst (renderGrid s))"
proof -
  have now: "0 \<le> logicalNow s" using assms by (simp add: tilesInv_def)
  have cell: "startMs s ! iy ! ix = - 1 \<or> startMs s ! iy ! ix = - 2
           \<or> (0 \<le> startMs s ! iy ! ix \<and> startMs s ! iy ! ix \<le> logicalNow s)"
    if "iy < ROWS" "ix < COLS" for iy ix
    using assms that by (simp add: tilesInv_def)
  have lp: "startMs s ! iy ! ix \<noteq> - 2 \<and> stopAtMs s ! iy ! ix = - 1"
    if "isLongPress s" "iy < ROWS" "ix < COLS" for iy ix
    using assms that by (simp add: tilesInv_def)
  have c1: "startMs (fst (renderGrid s)) ! iy ! ix = - 1
           \<or> startMs (fst (renderGrid s)) ! iy ! ix = - 2
           \<or> (0 \<le> startMs (fst (renderGrid s)) ! iy ! ix
               \<and> startMs (fst (renderGrid s)) ! iy ! ix \<le> logicalNow s)"
    if b: "iy < ROWS" "ix < COLS" for iy ix
  proof (cases "isLongPress s")
    case True
    then show ?thesis using cell[OF b] now
      by (simp add: renderGrid_cells[OF b] renderTile_longPress)
  next
    case False
    then show ?thesis using cell[OF b]
      by (auto simp add: renderGrid_cells[OF b] renderTile_released(2))
  qed
  have c2: "startMs (fst (renderGrid s)) ! iy ! ix \<noteq> - 2
             \<and> stopAtMs (fst (renderGrid s)) ! iy ! ix = - 1"
    if l: "isLongPress s" and b: "iy < ROWS" "ix < COLS" for iy ix
    using lp[OF l b] now by (simp add: renderGrid_cells[OF b] renderTile_longPress[OF l])
  show ?thesis
    unfolding tilesInv_def
    using c1 c2 now by (simp add: renderGrid_shaped renderGrid_other logicalNow_renderGrid)
qed


lemma simulate_grid:
  "isLongPress (simulateEmittersAndActivations s)
     = (isLongPress s \<or> (isPointerDown s \<and> logicalNow s - downAtMs s \<ge> LONGPRESS_MS))"
  "startMs (simulateEmittersAndActivations s)
     = (if isPointerDown s \<and> \<not> isLongPress s \<and> logicalNow s - downAtMs s \<ge> LONGPRESS_MS
        then replicate ROWS (replicate COLS (- 1)) else startMs s)"
  "stopAtMs (simulateEmittersAndActivations s)
     = (if isPointerDown s \<and> \<not> isLongPress s \<and> logicalNow s - downAtMs s \<ge> LONGPRESS_MS
        then replicate ROWS (replicate COLS (- 1)) else stopAtMs s)"
  by (auto simp add: simulateEmittersAndActivations_def Let_def pruneEmitters_other
      spawnEmitter_other resetForNewGesture_def initStates_def)

lemma simulate_layout:
  "sScale (simulateEmittersAndActivations s) = sScale s"
  "tileDiam (simulateEmittersAndActivations s) = tileDiam s"
  "marginX (simulateEmittersAndActivations s) = marginX s"
  "marginY (simulateEmittersAndActivations s) = marginY s"
  "sqrX (simulateEmittersAndActivations s) = sqrX s"
  "sqrY (simulateEmittersAndActivations s) = sqrY s"
  by (simp_all add: simulateEmittersAndActivations_def Let_def pruneEmitters_def
      spawnEmitter_def resetForNewGesture_def initStates_def)

lemma preRender_fields:
  "logicalNow (preRender r s) = logicalNow (updateClock r s)"
  "lastReal (preRender r s) = r"
  "clockPaused (preRender r s) = active (knob s)"
  "knob (preRender r s) = knob s"
  "HOLD_MS (preRender r s) = HOLD_MS s"
  "SEG_MS (preRender r s) = HALF_MS + HOLD_MS s"
  "CYCLE_MS (preRender r s) = 3 * (HALF_MS + HOLD_MS s)"
  "maxReachDist (preRender r s) = maxReachDist s"
  "isPointerDown (preRender r s) = isPointerDown s"
  "downAtMs (preRender r s) = downAtMs s"
  "lastPointer (preRender r s) = lastPointer s"
  "sScale (preRender r s) = sScale s"
  "tileDiam (preRender r s) = tileDiam s"
  "marginX (preRender r s) = marginX s"
  "marginY (preRender r s) = marginY s"
  "sqrX (preRender r s) = sqrX s"
  "sqrY (preRender r s) = sqrY s"
  by (simp_all add: preRender_def Let_def simulate_other simulate_layout updateClock_def)

lemma preRender_grid:
  "isLongPress (preRender r s) = (isLongPress s \<or> longPressBegins (Draw r) s)"
  "startMs (preRender r s)
     = (if longPressBegins (Draw r) s then replicate ROWS (replicate COLS (- 1))
        else startMs s)"
  "stopAtMs (preRender r s)
     = (if longPressBegins (Draw r) s then replicate ROWS (replicate COLS (- 1))
        else stopAtMs s)"
  by (auto simp add: preRender_def Let_def simulate_grid updateClock_def)

lemma tileCenter_preRender: "tileCenter (preRender r s) ix iy = tileCenter s ix iy"
  by (simp add: tileCenter_def preRender_fields)

lemma gridShaped_init: "gridShaped (replicate ROWS (replicate COLS v))"
  by (simp add: gridShaped_def)

lemma logicalNow_mono: "lastReal s \<le> r \<Longrightarrow> logicalNow s \<le> logicalNow (updateClock r s)"
  by (simp add: updateClock_def)

lemma tilesInv_preRender:
  assumes "tilesInv s" "lastReal s \<le> r"
  shows "tilesInv (preRender r s)"
proof (cases "longPressBegins (Draw r) s")
  case True
  then show ?thesis
    using assms logicalNow_mono[OF assms(2)]
    by (simp add: tilesInv_def preRender_grid preRender_fields(1) gridShaped_init
          del: longPressBegins.simps)
next
  case False
  have m: "logicalNow s \<le> logicalNow (updateClock r s)" by (rule logicalNow_mono[OF assms(2)])
  show ?thesis
    unfolding tilesInv_def preRender_grid preRender_fields(1)
    using False assms(1) m unfolding tilesInv_def
    by (simp del: longPressBegins.simps) (metis order_trans)
qed

lemma tilesInv_frame:
  "tilesInv s \<Longrightarrow> lastReal s \<le> r \<Longrightarrow> tilesInv (fst (drawFrame r s))"
  by (simp add: drawFrame_preRender tilesInv_renderGrid tilesInv_preRender)


lemma tilesInv_cong:
  assumes "tilesInv s" "startMs s' = startMs s" "stopAtMs s' = stopAtMs s"
    "logicalNow s' = logicalNow s" "isLongPress s' \<longrightarrow> isLongPress s"
  shows "tilesInv s'"
  using assms unfolding tilesInv_def by simp

lemma handler_grid:
  assumes "\<And>r. e \<noteq> Draw r"
  shows "startMs (step e s) = startMs s \<and> stopAtMs (step e s) = stopAtMs s
         \<and> logicalNow (step e s) = logicalNow s
         \<and> (isLongPress (step e s) \<longrightarrow> isLongPress s)
         \<and> CYCLE_MS (step e s) = CYCLE_MS s"
proof (cases e)
  case (Draw r)
  with assms show ?thesis by blast
qed (simp_all add: mousePressed_def mouseDragged_def mouseMoved_def
       mouseReleased_def enterKnobMode_def updateKnobWithPinch_def touchStarted_def
       touchMoved_def touchEnded_def windowResized_def computeGridLayout_def Let_def
       split: list.splits)

lemma dist_p5_nonneg: "0 \<le> dist_p5 a b c d"
  by (simp add: dist_p5_def)

lemma computeGridLayout_reach:
  assumes "0 \<le> canvasW s" "0 \<le> canvasH s"
  shows "172 \<le> maxReachDist (computeGridLayout s)"
proof -
  define td where "td = min ((canvasW s - GAP * (real COLS - 1)) / real COLS)
                          ((canvasH s - GAP * (real ROWS - 1)) / real ROWS)"
  have lo: "- 14 \<le> td"
    using assms unfolding td_def by (simp add: GAP_def COLS_def ROWS_def)
  obtain a b c d where "maxReachDist (computeGridLayout s) = dist_p5 a b c d + 2 * td + 200"
    unfolding td_def by (simp add: computeGridLayout_def Let_def)
  then show ?thesis using lo dist_p5_nonneg[of a b c d] by linarith
qed

lemma computeGridLayout_other:
  "startMs (computeGridLayout s) = startMs s" "stopAtMs (computeGridLayout s) = stopAtMs s"
  "logicalNow (computeGridLayout s) = logicalNow s"
  "isLongPress (computeGridLayout s) = isLongPress s"
  "HOLD_MS (computeGridLayout s) = HOLD_MS s" "CYCLE_MS (computeGridLayout s) = CYCLE_MS s"
  "knob (computeGridLayout s) = knob s" "clockPaused (computeGridLayout s) = clockPaused s"
  by (simp_all add: computeGridLayout_def Let_def)

lemma handler_reach:
  assumes "\<And>r. e \<noteq> Draw r" "admissible e s" "172 \<le> maxReachDist s"
  shows "172 \<le> maxReachDist (step e s)"
proof (cases e)
  case (Draw r)
  with assms show ?thesis by blast
next
  case (WindowResized w h)
  then show ?thesis using assms(2) computeGridLayout_reach[of "s\<lparr>canvasW := w, canvasH := h\<rparr>"]
    by (simp add: windowResized_def)
qed (use assms(3) in \<open>simp_all add: mousePressed_def mouseDragged_def mouseMoved_def
       mouseReleased_def enterKnobMode_def updateKnobWithPinch_def touchStarted_def
       touchMoved_def touchEnded_def Let_def split: list.splits\<close>)

lemma sketchInv_step:
  assumes "sketchInv s" "admissible e s"
  shows "sketchInv (step e s)"
proof (cases "\<exists>r. e = Draw r")
  case True
  then obtain r where e: "e = Draw r" by blast
  have r: "lastReal s \<le> r" using assms(2) e by simp
  have h: "HOLD_MIN \<le> HOLD_MS s" using assms(1) by (simp add: sketchInv_def)
  have "0 < CYCLE_MS (fst (drawFrame r s))"
    using h by (simp add: drawFrame_preRender renderGrid_other preRender_fields
        HALF_MS_def HOLD_MIN_def)
  then show ?thesis
    using assms(1) tilesInv_frame[OF _ r, of ] unfolding sketchInv_def e
    by (simp add: drawFrame_clock)
       (simp add: drawFrame_preRender renderGrid_other preRender_fields)
next
  case False
  then have ne: "\<And>r. e \<noteq> Draw r" by blast
  have t: "tilesInv (step e s)"
    using assms(1) handler_grid[OF ne, of s] tilesInv_cong[of s "step e s"]
    unfolding sketchInv_def by blast
  have hold: "HOLD_MIN \<le> HOLD_MS (step e s) \<and> HOLD_MS (step e s) \<le> HOLD_MAX"
    using assms(1) hold_step[of s e] unfolding sketchInv_def by blast
  have sync: "active (knob (step e s)) = clockPaused (step e s)"
    using assms(1) step_sync[of s e] unfolding sketchInv_def by blast
  have reach: "172 \<le> maxReachDist (step e s)"
    using assms handler_reach[OF ne] unfolding sketchInv_def by blast
  have cyc: "0 < CYCLE_MS (step e s)"
    using assms(1) handler_grid[OF ne, of s] unfolding sketchInv_def by simp
  from t hold sync reach cyc show ?thesis unfolding sketchInv_def by blast
qed

lemma sketchInv_setup:
  assumes "0 \<le> w" "0 \<le> h"
  shows "sketchInv (setupSketch w h m sc)"
proof -
  let ?s1 = "initStates (globals0\<lparr> canvasW := w, canvasH := h,
                         triX := sc_triX sc, triY := sc_triY sc,
                         sqrX := sc_sqrX sc, sqrY := sc_sqrY sc,
                         cirX := sc_cirX sc, cirY := sc_cirY sc \<rparr>)"
  have s: "setupSketch w h m sc = (computeGridLayout ?s1)\<lparr> lastReal := m \<rparr>"
    by (simp add: setupSketch_def Let_def)
  have "172 \<le> maxReachDist (computeGridLayout ?s1)"
    using assms by (intro computeGridLayout_reach) (simp_all add: initStates_def)
  moreover have "tilesInv (setupSketch w h m sc)"
    unfolding s tilesInv_def
    by (simp add: computeGridLayout_other initStates_def gridShaped_init globals0_def)
  ultimately show ?thesis
    unfolding sketchInv_def s
    by (simp add: computeGridLayout_other initStates_def globals0_def HOLD_MIN_def HOLD_MAX_def
        HALF_MS_def)
qed

lemma reachable_inv: "reachable s \<Longrightarrow> sketchInv s"
  by (induction rule: reachable.induct) (simp_all add: sketchInv_setup sketchInv_step del: step.simps)

subsection \<open>Tile transitions, emitters frame by frame, and a concrete gesture\<close>

lemma tilePhase_simps:
  "tilePhase (- 1) = 0" "tilePhase (- 2) = 2" "0 \<le> a \<Longrightarrow> tilePhase a = 1"
  "tilePhase a = 2 \<longleftrightarrow> a = - 2" "tilePhase a = 0 \<longleftrightarrow> a = - 1"
  by (simp_all add: tilePhase_def)

lemma renderGrid_tile_order:
  assumes "tilesInv s" "iy < ROWS" "ix < COLS"
  shows "tilePhase (startMs s ! iy ! ix) \<le> tilePhase (startMs (fst (renderGrid s)) ! iy ! ix)
         \<and> (tilePhase (startMs s ! iy ! ix) = 1
              \<and> tilePhase (startMs (fst (renderGrid s)) ! iy ! ix) = 1
            \<longrightarrow> startMs (fst (renderGrid s)) ! iy ! ix = startMs s ! iy ! ix)"
proof -
  have now: "0 \<le> logicalNow s" using assms by (simp add: tilesInv_def)
  have cell: "startMs s ! iy ! ix = - 1 \<or> startMs s ! iy ! ix = - 2
           \<or> (0 \<le> startMs s ! iy ! ix \<and> startMs s ! iy ! ix \<le> logicalNow s)"
    using assms by (simp add: tilesInv_def)
  show ?thesis
  proof (cases "isLongPress s")
    case True
    then have "startMs s ! iy ! ix \<noteq> - 2" using assms by (simp add: tilesInv_def)
    then show ?thesis using cell now True
      by (auto simp add: renderGrid_cells[OF assms(2,3)] renderTile_longPress tilePhase_simps)
  next
    case False
    then show ?thesis using cell
      by (auto simp add: renderGrid_cells[OF assms(2,3)] renderTile_released(2) tilePhase_simps)
  qed
qed

lemma tile_step_order:
  assumes "sketchInv s" "admissible e s" "\<not> longPressBegins e s" "iy < ROWS" "ix < COLS"
  shows "tilePhase (startMs s ! iy ! ix) \<le> tilePhase (startMs (step e s) ! iy ! ix)
         \<and> (tilePhase (startMs s ! iy ! ix) = 1 \<and> tilePhase (startMs (step e s) ! iy ! ix) = 1
            \<longrightarrow> startMs (step e s) ! iy ! ix = startMs s ! iy ! ix)"
proof (cases "\<exists>r. e = Draw r")
  case True
  then obtain r where e: "e = Draw r" by blast
  have t: "tilesInv (preRender r s)"
    using assms(1,2) e by (simp add: sketchInv_def tilesInv_preRender)
  have g: "startMs (preRender r s) = startMs s"
    using assms(3) e by (simp add: preRender_grid del: longPressBegins.simps)
  show ?thesis
    using renderGrid_tile_order[OF t assms(4,5)] unfolding g e
    by (simp add: drawFrame_preRender)
next
  case False
  then have "startMs (step e s) = startMs s" using handler_grid[of e s] by blast
  then show ?thesis by simp
qed

lemma phase_order_trans:
  fixes pa pb pc :: nat and a b c :: real
  assumes "pa \<le> pb \<and> (pa = 1 \<and> pb = 1 \<longrightarrow> b = a)"
    and "pb \<le> pc \<and> (pb = 1 \<and> pc = 1 \<longrightarrow> c = b)"
  shows "pa \<le> pc \<and> (pa = 1 \<and> pc = 1 \<longrightarrow> c = a)"
proof (intro conjI impI)
  show "pa \<le> pc" using assms by linarith
  assume h: "pa = 1 \<and> pc = 1"
  then have "pb = 1" using assms by linarith
  then show "c = a" using assms h by simp
qed

lemma tile_run_order:
  assumes "sketchInv s" "admissibleRun evs s" "noNewGesture evs s" "iy < ROWS" "ix < COLS"
  shows "tilePhase (startMs s ! iy ! ix) \<le> tilePhase (startMs (run evs s) ! iy ! ix)
         \<and> (tilePhase (startMs s ! iy ! ix) = 1 \<and> tilePhase (startMs (run evs s) ! iy ! ix) = 1
            \<longrightarrow> startMs (run evs s) ! iy ! ix = startMs s ! iy ! ix)"
  using assms(1,2,3)
proof (induction evs arbitrary: s)
  case Nil
  then show ?case by simp
next
  case (Cons e evs)
  have i: "sketchInv (step e s)" using Cons.prems by (simp add: sketchInv_step)
  have one: "tilePhase (startMs s ! iy ! ix) \<le> tilePhase (startMs (step e s) ! iy ! ix)
         \<and> (tilePhase (startMs s ! iy ! ix) = 1 \<and> tilePhase (startMs (step e s) ! iy ! ix) = 1
            \<longrightarrow> startMs (step e s) ! iy ! ix = startMs s ! iy ! ix)"
    using Cons.prems assms(4,5) by (intro tile_step_order) simp_all
  have rest: "tilePhase (startMs (step e s) ! iy ! ix)
                \<le> tilePhase (startMs (run evs (step e s)) ! iy ! ix)
         \<and> (tilePhase (startMs (step e s) ! iy ! ix) = 1
             \<and> tilePhase (startMs (run evs (step e s)) ! iy ! ix) = 1
            \<longrightarrow> startMs (run evs (step e s)) ! iy ! ix = startMs (step e s) ! iy ! ix)"
    using Cons.IH[OF i] Cons.prems by simp
  show ?case
    using phase_order_trans[OF one rest] by simp
qed

lemma gesture_start_tiles:
  assumes "sketchInv s" "admissible (Draw r) s" "longPressBegins (Draw r) s"
    "iy < ROWS" "ix < COLS"
  shows "startMs (step (Draw r) s) ! iy ! ix = - 1
         \<or> startMs (step (Draw r) s) ! iy ! ix = logicalNow (step (Draw r) s)"
proof -
  have l: "isLongPress (preRender r s)" using assms(3) by (simp add: preRender_grid)
  have g: "startMs (preRender r s) ! iy ! ix = - 1"
    using assms(3,4,5) by (simp add: preRender_grid del: longPressBegins.simps)
  show ?thesis
    using g by (simp add: drawFrame_preRender renderGrid_cells[OF assms(4,5)]
        renderTile_longPress[OF l] logicalNow_renderGrid)
qed

lemma ceiling_boundary:
  fixes e c :: real
  assumes "0 < c" "0 \<le> e"
  shows "e \<le> of_int \<lceil>e / c\<rceil> * c" "of_int \<lceil>e / c\<rceil> * c < e + c"
    "of_int \<lceil>e / c\<rceil> = real (nat \<lceil>e / c\<rceil>)"
proof -
  define k where "k = \<lceil>e / c\<rceil>"
  have lo: "e / c \<le> of_int k" and hi: "of_int k - 1 < e / c"
    unfolding k_def by linarith+
  have "e = (e / c) * c" using assms(1) by simp
  also have "\<dots> \<le> of_int k * c" using lo assms(1) by (intro mult_right_mono) simp_all
  finally show "e \<le> of_int \<lceil>e / c\<rceil> * c" unfolding k_def .
  have "(of_int k - 1) * c < (e / c) * c" using hi assms(1) by (intro mult_strict_right_mono)
  then have "of_int k * c - c < e" using assms(1) by (simp add: left_diff_distrib)
  then show "of_int \<lceil>e / c\<rceil> * c < e + c" unfolding k_def by linarith
  have "0 \<le> e / c" using assms by simp
  then have "0 \<le> k" unfolding k_def by linarith
  then show "of_int \<lceil>e / c\<rceil> = real (nat \<lceil>e / c\<rceil>)" unfolding k_def by simp
qed

lemma js_rem_multiple: "c \<noteq> 0 \<Longrightarrow> js_rem (of_int k * c) c = 0"
  by (simp add: js_rem_def trunc_def)

lemma released_frame_tile:
  assumes "reachable s" "admissible (Draw realNow) s" "iy < ROWS" "ix < COLS"
    and "s' = step (Draw realNow) s" "\<not> isLongPress s'"
    and "t0 = startMs s ! iy ! ix" "0 \<le> t0"
    and "now = logicalNow s'" "cyc = CYCLE_MS s'"
  shows "(stopAtMs s ! iy ! ix = - 1 \<longrightarrow>
            stopAtMs s' ! iy ! ix = t0 + of_int \<lceil>(now - t0) / cyc\<rceil> * cyc)
         \<and> (stopAtMs s ! iy ! ix \<noteq> - 1 \<longrightarrow> stopAtMs s' ! iy ! ix = stopAtMs s ! iy ! ix)
         \<and> startMs s' ! iy ! ix = (if stopAtMs s' ! iy ! ix \<le> now then - 2 else t0)
         \<and> snd (drawFrame realNow s) ! iy ! ix
             = (if stopAtMs s' ! iy ! ix \<le> now then drawShape s' (sqrX s') (sqrY s')
                else drawLoopCycle s' (now - t0) (sScale s'))
         \<and> cyc = 3 * (HALF_MS + HOLD_MS s)
         \<and> now \<le> t0 + of_int \<lceil>(now - t0) / cyc\<rceil> * cyc
         \<and> t0 + of_int \<lceil>(now - t0) / cyc\<rceil> * cyc < now + cyc
         \<and> (\<exists>n::nat. t0 + of_int \<lceil>(now - t0) / cyc\<rceil> * cyc = t0 + real n * cyc)
         \<and> js_rem (of_int \<lceil>(now - t0) / cyc\<rceil> * cyc) cyc = 0
         \<and> (stopAtMs s ! iy ! ix = - 1 \<longrightarrow> stopAtMs s' ! iy ! ix \<noteq> - 1)
         \<and> (HOLD_MS s = 1500 \<and> t0 = 1000 \<and> now = 2000 \<and> stopAtMs s ! iy ! ix = - 1
              \<longrightarrow> stopAtMs s' ! iy ! ix = 6400)"
proof -
  let ?p = "preRender realNow s"
  have inv: "sketchInv s" using assms(1) by (rule reachable_inv)
  have r: "lastReal s \<le> realNow" using assms(2) by simp
  have s': "s' = fst (renderGrid ?p)" using assms(5) by (simp add: drawFrame_preRender)
  have nl: "\<not> isLongPress ?p" using assms(6) by (simp add: s' renderGrid_other)
  then have nb: "\<not> longPressBegins (Draw realNow) s"
    by (simp add: preRender_grid del: longPressBegins.simps)
  have g: "startMs ?p = startMs s" "stopAtMs ?p = stopAtMs s"
    using nb by (simp_all add: preRender_grid del: longPressBegins.simps)
  have now: "now = logicalNow ?p" using assms(9) by (simp add: s' logicalNow_renderGrid)
  have cyc: "cyc = CYCLE_MS ?p" using assms(10) by (simp add: s' renderGrid_other)
  have cyc_eq: "cyc = 3 * (HALF_MS + HOLD_MS s)" by (simp add: cyc preRender_fields)
  have cyc_pos: "0 < cyc"
    using inv by (simp add: cyc_eq sketchInv_def HALF_MS_def HOLD_MIN_def)
  have "t0 \<le> logicalNow s"
    using inv assms(3,4,7,8) unfolding sketchInv_def tilesInv_def by force
  then have el: "0 \<le> now - t0"
    using logicalNow_mono[OF r] by (simp add: now preRender_fields)
  have ns: "t0 \<noteq> - 1" "t0 \<noteq> - 2" using assms(8) by simp_all
  note ce = ceiling_boundary[OF cyc_pos el]
  have stop: "stopAtMs s' ! iy ! ix
                = (if stopAtMs s ! iy ! ix \<noteq> - 1 then stopAtMs s ! iy ! ix
                   else t0 + of_int \<lceil>(now - t0) / cyc\<rceil> * cyc)"
    using ns by (simp add: s' renderGrid_cells[OF assms(3,4)] renderTile_released(1)[OF nl]
        g assms(7)[symmetric] now[symmetric] cyc[symmetric])
  have start: "startMs s' ! iy ! ix = (if stopAtMs s' ! iy ! ix \<le> now then - 2 else t0)"
    using ns by (simp add: s' renderGrid_cells[OF assms(3,4)] renderTile_released(2)[OF nl]
        g assms(7)[symmetric] now[symmetric])
  have out: "snd (drawFrame realNow s) ! iy ! ix
             = (if stopAtMs s' ! iy ! ix \<le> now then drawShape ?p (sqrX ?p) (sqrY ?p)
                else drawLoopCycle ?p (now - t0) (sScale ?p))"
    using ns by (simp add: s' drawFrame_preRender renderGrid_cells[OF assms(3,4)]
        renderTile_released(3)[OF nl] g assms(7)[symmetric] now[symmetric])
  have same: "drawShape s' xs ys = drawShape ?p xs ys"
    "drawLoopCycle s' a b = drawLoopCycle ?p a b" for xs ys a b
    by (simp_all add: s' drawShape_def drawLoopCycle_def Let_def renderGrid_other)
  have out': "snd (drawFrame realNow s) ! iy ! ix
             = (if stopAtMs s' ! iy ! ix \<le> now then drawShape s' (sqrX s') (sqrY s')
                else drawLoopCycle s' (now - t0) (sScale s'))"
    unfolding out same by (simp add: s' renderGrid_other)
  have planned: "now \<le> t0 + of_int \<lceil>(now - t0) / cyc\<rceil> * cyc"
    "t0 + of_int \<lceil>(now - t0) / cyc\<rceil> * cyc < now + cyc"
    using ce(1,2) by linarith+
  have nat: "\<exists>n::nat. t0 + of_int \<lceil>(now - t0) / cyc\<rceil> * cyc = t0 + real n * cyc"
    using ce(3) by (intro exI[of _ "nat \<lceil>(now - t0) / cyc\<rceil>"]) simp
  have nonneg: "stopAtMs s ! iy ! ix = - 1 \<longrightarrow> stopAtMs s' ! iy ! ix \<noteq> - 1"
    using planned(1) el assms(8) by (simp add: stop)
  have ex: "HOLD_MS s = 1500 \<and> t0 = 1000 \<and> now = 2000 \<and> stopAtMs s ! iy ! ix = - 1
              \<longrightarrow> stopAtMs s' ! iy ! ix = 6400"
    by (simp add: stop cyc_eq HALF_MS_def)
  have bnd: "js_rem (of_int \<lceil>(now - t0) / cyc\<rceil> * cyc) cyc = 0"
    using cyc_pos by (intro js_rem_multiple) simp
  show ?thesis
    using stop start out' cyc_eq planned nat bnd nonneg ex by simp
qed


lemma simulate_detect:
  assumes "isPointerDown s" "\<not> isLongPress s" "LONGPRESS_MS \<le> logicalNow s - downAtMs s"
    "0 < maxReachDist s"
  shows "emitters (simulateEmittersAndActivations s)
           = [\<lparr>em_t0 = logicalNow s, em_x = pt_x (lastPointer s), em_y = pt_y (lastPointer s)\<rparr>]"
    and "lastEmitMs (simulateEmittersAndActivations s) = logicalNow s"
  using assms
  by (simp_all add: simulateEmittersAndActivations_def Let_def spawnEmitter_def
      resetForNewGesture_def initStates_def pruneEmitters_dropWhile pruneEmitters_other
      MAX_EMITTERS_def EMIT_INTERVAL_MS_def not_le)

lemma simulate_quiet:
  assumes "isLongPress s" "logicalNow s - lastEmitMs s < EMIT_INTERVAL_MS"
  shows "emitters (simulateEmittersAndActivations s)
           = dropWhile (\<lambda>e. maxReachDist s \<le> (logicalNow s - em_t0 e) * WAVE_SPEED_PX_PER_MS)
               (emitters s)"
    and "lastEmitMs (simulateEmittersAndActivations s) = lastEmitMs s"
  using assms
  by (simp_all add: simulateEmittersAndActivations_def Let_def pruneEmitters_dropWhile
      pruneEmitters_other)

lemma simulate_emit:
  assumes "isLongPress s" "EMIT_INTERVAL_MS \<le> logicalNow s - lastEmitMs s"
    "length (emitters s) < MAX_EMITTERS"
  shows "emitters (simulateEmittersAndActivations s)
           = dropWhile (\<lambda>e. maxReachDist s \<le> (logicalNow s - em_t0 e) * WAVE_SPEED_PX_PER_MS)
               (emitters s @ [\<lparr>em_t0 = logicalNow s, em_x = pt_x (lastPointer s),
                                em_y = pt_y (lastPointer s)\<rparr>])"
    and "lastEmitMs (simulateEmittersAndActivations s) = logicalNow s"
  using assms
  by (simp_all add: simulateEmittersAndActivations_def Let_def spawnEmitter_def
      pruneEmitters_dropWhile pruneEmitters_other)

lemma simulate_idle:
  assumes "\<not> isLongPress s" "\<not> (isPointerDown s \<and> LONGPRESS_MS \<le> logicalNow s - downAtMs s)"
  shows "emitters (simulateEmittersAndActivations s)
           = dropWhile (\<lambda>e. maxReachDist s \<le> (logicalNow s - em_t0 e) * WAVE_SPEED_PX_PER_MS)
               (emitters s)"
    and "lastEmitMs (simulateEmittersAndActivations s) = lastEmitMs s"
  using assms
  by (auto simp add: simulateEmittersAndActivations_def Let_def pruneEmitters_dropWhile
      pruneEmitters_other)

text \<open>The state after a frame outside knob mode, field by field.\<close>

lemma frame_fields:
  "logicalNow (fst (drawFrame r s)) = logicalNow (updateClock r s)"
  "lastReal (fst (drawFrame r s)) = r"
  "clockPaused (fst (drawFrame r s)) = active (knob s)"
  "knob (fst (drawFrame r s)) = knob s"
  "HOLD_MS (fst (drawFrame r s)) = HOLD_MS s"
  "CYCLE_MS (fst (drawFrame r s)) = 3 * (HALF_MS + HOLD_MS s)"
  "maxReachDist (fst (drawFrame r s)) = maxReachDist s"
  "isPointerDown (fst (drawFrame r s)) = isPointerDown s"
  "downAtMs (fst (drawFrame r s)) = downAtMs s"
  "lastPointer (fst (drawFrame r s)) = lastPointer s"
  "isLongPress (fst (drawFrame r s)) = (isLongPress s \<or> longPressBegins (Draw r) s)"
  "emitters (fst (drawFrame r s)) = emitters (preRender r s)"
  "lastEmitMs (fst (drawFrame r s)) = lastEmitMs (preRender r s)"
  by (simp_all add: drawFrame_preRender renderGrid_other logicalNow_renderGrid
      lastReal_renderGrid clockPaused_renderGrid knob_renderGrid preRender_fields
      preRender_grid del: longPressBegins.simps)

lemma preRender_playing:
  assumes "\<not> active (knob s)" "\<not> clockPaused s"
  shows "preRender r s
           = simulateEmittersAndActivations
               (s\<lparr> logicalNow := logicalNow s + (r - lastReal s), lastReal := r,
                    SEG_MS := HALF_MS + HOLD_MS s, CYCLE_MS := 3 * (HALF_MS + HOLD_MS s),
                    clockPaused := False \<rparr>)"
  using assms by (simp add: preRender_def updateClock_def Let_def)

lemma frame_detect:
  assumes "\<not> active (knob s)" "\<not> clockPaused s" "isPointerDown s" "\<not> isLongPress s"
    "LONGPRESS_MS \<le> logicalNow s + (r - lastReal s) - downAtMs s" "0 < maxReachDist s"
  shows "emitters (step (Draw r) s)
           = [\<lparr>em_t0 = logicalNow s + (r - lastReal s), em_x = pt_x (lastPointer s),
               em_y = pt_y (lastPointer s)\<rparr>]"
    and "lastEmitMs (step (Draw r) s) = logicalNow s + (r - lastReal s)"
    and "isLongPress (step (Draw r) s)"
    and "logicalNow (step (Draw r) s) = logicalNow s + (r - lastReal s)"
  using assms
  by (simp_all add: frame_fields preRender_playing[OF assms(1,2)] simulate_detect
      updateClock_def)

lemma frame_quiet:
  assumes "\<not> active (knob s)" "\<not> clockPaused s" "isLongPress s"
    "logicalNow s + (r - lastReal s) - lastEmitMs s < EMIT_INTERVAL_MS"
  shows "emitters (step (Draw r) s)
           = dropWhile (\<lambda>e. maxReachDist s
                  \<le> (logicalNow s + (r - lastReal s) - em_t0 e) * WAVE_SPEED_PX_PER_MS)
               (emitters s)"
    and "lastEmitMs (step (Draw r) s) = lastEmitMs s"
    and "isLongPress (step (Draw r) s)"
    and "logicalNow (step (Draw r) s) = logicalNow s + (r - lastReal s)"
  using assms
  by (simp_all add: frame_fields preRender_playing[OF assms(1,2)] simulate_quiet
      updateClock_def)

lemma frame_emit:
  assumes "\<not> active (knob s)" "\<not> clockPaused s" "isLongPress s"
    "EMIT_INTERVAL_MS \<le> logicalNow s + (r - lastReal s) - lastEmitMs s"
    "length (emitters s) < MAX_EMITTERS"
  shows "emitters (step (Draw r) s)
           = dropWhile (\<lambda>e. maxReachDist s
                  \<le> (logicalNow s + (r - lastReal s) - em_t0 e) * WAVE_SPEED_PX_PER_MS)
               (emitters s @ [\<lparr>em_t0 = logicalNow s + (r - lastReal s),
                                em_x = pt_x (lastPointer s), em_y = pt_y (lastPointer s)\<rparr>])"
    and "lastEmitMs (step (Draw r) s) = logicalNow s + (r - lastReal s)"
    and "isLongPress (step (Draw r) s)"
    and "logicalNow (step (Draw r) s) = logicalNow s + (r - lastReal s)"
  using assms
  by (simp_all add: frame_fields preRender_playing[OF assms(1,2)] simulate_emit
      updateClock_def)

lemma frame_idle:
  assumes "\<not> active (knob s)" "\<not> clockPaused s" "\<not> isLongPress s"
    "\<not> (isPointerDown s \<and> LONGPRESS_MS \<le> logicalNow s + (r - lastReal s) - downAtMs s)"
  shows "emitters (step (Draw r) s)
           = dropWhile (\<lambda>e. maxReachDist s
                  \<le> (logicalNow s + (r - lastReal s) - em_t0 e) * WAVE_SPEED_PX_PER_MS)
               (emitters s)"
    and "\<not> isLongPress (step (Draw r) s)"
    and "logicalNow (step (Draw r) s) = logicalNow s + (r - lastReal s)"
  using assms
  by (simp_all add: frame_fields preRender_playing[OF assms(1,2)] simulate_idle
      updateClock_def)


lemma frames_last_mono:
  "admissibleRun (map Draw rs) s \<Longrightarrow> lastReal s \<le> last (lastReal s # rs)"
proof (induction rs arbitrary: s)
  case Nil
  then show ?case by simp
next
  case (Cons r rs)
  have "lastReal (step (Draw r) s) \<le> last (lastReal (step (Draw r) s) # rs)"
    using Cons.prems by (intro Cons.IH) simp
  then show ?case using Cons.prems by (simp add: frame_fields)
qed

lemma quiet_frames:
  assumes "sketchInv s" "isLongPress s" "\<not> active (knob s)" "emitters s = [e]"
    "lastEmitMs s = em_t0 e" "logicalNow s - em_t0 e = lastReal s - r1"
    "admissibleRun (map Draw rs) s" "last (lastReal s # rs) - r1 < EMIT_INTERVAL_MS"
  shows "emitters (run (map Draw rs) s) = [e] \<and> isLongPress (run (map Draw rs) s)"
  using assms
proof (induction rs arbitrary: s)
  case Nil
  then show ?case by simp
next
  case (Cons r rs)
  let ?s' = "step (Draw r) s"
  have adm: "admissible (Draw r) s" "admissibleRun (map Draw rs) ?s'"
    using Cons.prems(7) by simp_all
  have lr: "lastReal ?s' = r" by (simp add: frame_fields)
  have "r \<le> last (r # rs)" using frames_last_mono[OF adm(2)] by (simp only: lr)
  then have bound: "r - r1 < EMIT_INTERVAL_MS" using Cons.prems(8) by simp
  have np: "\<not> clockPaused s" using Cons.prems(1,3) by (simp add: sketchInv_def)
  have mr: "172 \<le> maxReachDist s" using Cons.prems(1) by (simp add: sketchInv_def)
  have age: "logicalNow s + (r - lastReal s) - em_t0 e = r - r1"
    using Cons.prems(6) by simp
  have q: "logicalNow s + (r - lastReal s) - lastEmitMs s < EMIT_INTERVAL_MS"
    using bound age Cons.prems(5) by simp
  note fq = frame_quiet[OF Cons.prems(3) np Cons.prems(2) q]
  have "(r - r1) * WAVE_SPEED_PX_PER_MS < maxReachDist s"
    using bound mr by (simp add: EMIT_INTERVAL_MS_def WAVE_SPEED_PX_PER_MS_def)
  then have em: "emitters ?s' = [e]"
    using fq(1) by (simp add: Cons.prems(4) age)
  have i: "sketchInv ?s'" using Cons.prems(1) adm(1) by (rule sketchInv_step)
  have k: "\<not> active (knob ?s')" using Cons.prems(3) by (simp add: frame_fields)
  have le: "lastEmitMs ?s' = em_t0 e" using fq(2) Cons.prems(5) by simp
  have ag: "logicalNow ?s' - em_t0 e = lastReal ?s' - r1"
    using fq(4) age by (simp only: lr) 
  have la: "last (lastReal ?s' # rs) - r1 < EMIT_INTERVAL_MS"
    using Cons.prems(8) by (simp only: lr) simp
  show ?case
    using Cons.IH[OF i fq(3) k em le ag adm(2) la] by simp
qed

lemma hitByAnyEmitter_emitters:
  "emitters a = emitters b \<Longrightarrow> hitByAnyEmitter a now px py = hitByAnyEmitter b now px py"
  by (simp add: hitByAnyEmitter_def)

lemma frame_tiles_longPress:
  assumes "iy < ROWS" "ix < COLS" "isLongPress (step (Draw r) s)"
  shows "startMs (step (Draw r) s) ! iy ! ix
           = (if (if isLongPress s then startMs s ! iy ! ix else - 1) < 0
                 \<and> hitByAnyEmitter (step (Draw r) s) (logicalNow (step (Draw r) s))
                      (pt_x (tileCenter s ix iy)) (pt_y (tileCenter s ix iy))
              then logicalNow (step (Draw r) s)
              else (if isLongPress s then startMs s ! iy ! ix else - 1))"
proof -
  let ?p = "preRender r s"
  have l: "isLongPress ?p" using assms(3) by (simp add: drawFrame_preRender renderGrid_other)
  have base: "startMs ?p ! iy ! ix = (if isLongPress s then startMs s ! iy ! ix else - 1)"
    using l assms(1,2) by (auto simp add: preRender_grid)
  have hit: "hitByAnyEmitter (step (Draw r) s) now px py = hitByAnyEmitter ?p now px py"
    for now px py
    by (rule hitByAnyEmitter_emitters) (simp add: drawFrame_preRender renderGrid_other)
  show ?thesis
    unfolding hit
    by (simp add: drawFrame_preRender renderGrid_cells[OF assms(1,2)]
        renderTile_longPress(1)[OF l] base tileCenter_preRender logicalNow_renderGrid)
qed

lemma demoStart_fields:
  "isPointerDown demoStart = False" "isLongPress demoStart = False"
  "downAtMs demoStart = 0" "emitters demoStart = []" "lastEmitMs demoStart = 0"
  by (simp_all add: demoStart_def setupSketch_def computeGridLayout_def initStates_def
      globals0_def Let_def)

lemma demoStart_centre: "tileCenter demoStart 0 0 = \<lparr>pt_x = 207.5, pt_y = 30.5\<rparr>"
  by (simp add: tileCenter_def demoStart_def setupSketch_def computeGridLayout_def
      initStates_def globals0_def Let_def GAP_def COLS_def ROWS_def)

lemma step_layout:
  "tileCenter (step (Draw r) s) ix iy = tileCenter s ix iy"
  "tileCenter (step (MousePressed mx my) s) ix iy = tileCenter s ix iy"
  "tileCenter (step MouseReleased s) ix iy = tileCenter s ix iy"
  by (simp_all add: tileCenter_def drawFrame_preRender renderGrid_other preRender_fields
      mousePressed_def mouseReleased_def)

lemma demoIdle_fields:
  "reachable (step (Draw 650) demoStart)"
  "\<not> active (knob (step (Draw 650) demoStart))"
  "\<not> clockPaused (step (Draw 650) demoStart)"
  "logicalNow (step (Draw 650) demoStart) = 650"
  "lastReal (step (Draw 650) demoStart) = 650"
  "emitters (step (Draw 650) demoStart) = []"
proof -
  show "reachable (step (Draw 650) demoStart)"
    by (rule reach_step[OF demoStart_reachable]) (simp add: demoStart_clock)
  have a: "\<not> active (knob demoStart)" "\<not> clockPaused demoStart" "\<not> isLongPress demoStart"
    "\<not> (isPointerDown demoStart
         \<and> LONGPRESS_MS \<le> logicalNow demoStart + (650 - lastReal demoStart) - downAtMs demoStart)"
    by (simp_all add: demoStart_clock demoStart_fields)
  show "emitters (step (Draw 650) demoStart) = []"
    using frame_idle(1)[OF a] by (simp add: demoStart_fields)
  show "\<not> active (knob (step (Draw 650) demoStart))"
    "\<not> clockPaused (step (Draw 650) demoStart)"
    "logicalNow (step (Draw 650) demoStart) = 650"
    "lastReal (step (Draw 650) demoStart) = 650"
    by (simp_all add: frame_fields updateClock_def demoStart_clock)
qed

lemma demoPressed_fields:
  "reachable demoPressed" "\<not> active (knob demoPressed)" "\<not> clockPaused demoPressed"
  "isPointerDown demoPressed" "\<not> isLongPress demoPressed"
  "logicalNow demoPressed = 650" "lastReal demoPressed = 650" "downAtMs demoPressed = 650"
  "lastPointer demoPressed = \<lparr>pt_x = 207.5, pt_y = 30.5\<rparr>"
  "tileCenter demoPressed 0 0 = \<lparr>pt_x = 207.5, pt_y = 30.5\<rparr>"
proof -
  show "reachable demoPressed"
    unfolding demoPressed_def by (rule reach_step[OF demoIdle_fields(1)]) simp
  show "tileCenter demoPressed 0 0 = \<lparr>pt_x = 207.5, pt_y = 30.5\<rparr>"
    unfolding demoPressed_def by (simp only: step_layout demoStart_centre)
  show "\<not> active (knob demoPressed)" "\<not> clockPaused demoPressed"
    "isPointerDown demoPressed" "\<not> isLongPress demoPressed"
    "logicalNow demoPressed = 650" "lastReal demoPressed = 650" "downAtMs demoPressed = 650"
    "lastPointer demoPressed = \<lparr>pt_x = 207.5, pt_y = 30.5\<rparr>"
    using demoIdle_fields(2-5)
    by (simp_all add: demoPressed_def mousePressed_def del: step.simps(1))
qed

lemma demoLongPress_fields:
  "reachable demoLongPress" "\<not> active (knob demoLongPress)" "\<not> clockPaused demoLongPress"
  "isPointerDown demoLongPress" "isLongPress demoLongPress"
  "logicalNow demoLongPress = 1000" "lastReal demoLongPress = 1000"
  "emitters demoLongPress = [\<lparr>em_t0 = 1000, em_x = 207.5, em_y = 30.5\<rparr>]"
  "lastEmitMs demoLongPress = 1000" "HOLD_MS demoLongPress = 1500"
  "startMs demoLongPress ! 0 ! 0 = 1000" "stopAtMs demoLongPress ! 0 ! 0 = - 1"
proof -
  show r: "reachable demoLongPress"
    unfolding demoLongPress_def
    by (rule reach_step[OF demoPressed_fields(1)]) (simp add: demoPressed_fields)
  have mr: "0 < maxReachDist demoPressed"
    using reachable_inv[OF demoPressed_fields(1)] by (simp add: sketchInv_def)
  have lp: "LONGPRESS_MS \<le> logicalNow demoPressed + (1000 - lastReal demoPressed)
              - downAtMs demoPressed"
    by (simp add: demoPressed_fields LONGPRESS_MS_def)
  note fd = frame_detect[OF demoPressed_fields(2,3,4,5) lp mr]
  show em: "emitters demoLongPress = [\<lparr>em_t0 = 1000, em_x = 207.5, em_y = 30.5\<rparr>]"
    using fd(1) by (simp add: demoLongPress_def demoPressed_fields)
  show "lastEmitMs demoLongPress = 1000"
    using fd(2) by (simp add: demoLongPress_def demoPressed_fields)
  show l: "isLongPress demoLongPress" using fd(3) by (simp add: demoLongPress_def)
  show now: "logicalNow demoLongPress = 1000"
    using fd(4) by (simp add: demoLongPress_def demoPressed_fields)
  show "\<not> active (knob demoLongPress)" "\<not> clockPaused demoLongPress"
    "isPointerDown demoLongPress" "lastReal demoLongPress = 1000"
    using demoPressed_fields(2,4) by (simp_all add: demoLongPress_def frame_fields)
  show "HOLD_MS demoLongPress = 1500"
    by (simp add: demoLongPress_def demoPressed_def frame_fields mousePressed_def
        demoStart_clock)
  have hit: "hitByAnyEmitter demoLongPress 1000 207.5 30.5"
    by (simp add: hitByAnyEmitter_iff em dist_p5_self ACTIVATION_BAND_def)
  have "startMs (step (Draw 1000) demoPressed) ! 0 ! 0
          = (if (if isLongPress demoPressed then startMs demoPressed ! 0 ! 0 else - 1) < 0
                 \<and> hitByAnyEmitter (step (Draw 1000) demoPressed)
                      (logicalNow (step (Draw 1000) demoPressed))
                      (pt_x (tileCenter demoPressed 0 0)) (pt_y (tileCenter demoPressed 0 0))
              then logicalNow (step (Draw 1000) demoPressed)
              else (if isLongPress demoPressed then startMs demoPressed ! 0 ! 0 else - 1))"
    using l by (intro frame_tiles_longPress) (simp_all add: ROWS_def COLS_def demoLongPress_def)
  then show "startMs demoLongPress ! 0 ! 0 = 1000"
    using hit now unfolding demoLongPress_def[symmetric]
    by (simp add: demoPressed_fields)
  show "stopAtMs demoLongPress ! 0 ! 0 = - 1"
    using reachable_inv[OF r] l by (simp add: sketchInv_def tilesInv_def ROWS_def COLS_def)
qed

lemma demoReleased_fields:
  "reachable demoReleased" "\<not> active (knob demoReleased)" "\<not> clockPaused demoReleased"
  "\<not> isPointerDown demoReleased" "\<not> isLongPress demoReleased"
  "logicalNow demoReleased = 1000" "lastReal demoReleased = 1000"
  "HOLD_MS demoReleased = 1500"
  "startMs demoReleased ! 0 ! 0 = 1000" "stopAtMs demoReleased ! 0 ! 0 = - 1"
proof -
  show "reachable demoReleased"
    unfolding demoReleased_def by (rule reach_step[OF demoLongPress_fields(1)]) simp
  show "\<not> active (knob demoReleased)" "\<not> clockPaused demoReleased"
    "\<not> isPointerDown demoReleased" "\<not> isLongPress demoReleased"
    "logicalNow demoReleased = 1000" "lastReal demoReleased = 1000"
    "HOLD_MS demoReleased = 1500"
    "startMs demoReleased ! 0 ! 0 = 1000" "stopAtMs demoReleased ! 0 ! 0 = - 1"
    using demoLongPress_fields by (simp_all add: demoReleased_def mouseReleased_def)
qed


lemma demoStopping_fields:
  "reachable (step (Draw 2000) demoReleased)"
  "\<not> isPointerDown (step (Draw 2000) demoReleased)"
  "\<not> isLongPress (step (Draw 2000) demoReleased)"
  "logicalNow (step (Draw 2000) demoReleased) = 2000"
  "lastReal (step (Draw 2000) demoReleased) = 2000"
  "CYCLE_MS (step (Draw 2000) demoReleased) = 5400"
  "startMs (step (Draw 2000) demoReleased) ! 0 ! 0 = 1000"
  "stopAtMs (step (Draw 2000) demoReleased) ! 0 ! 0 = 6400"
proof -
  let ?s' = "step (Draw 2000) demoReleased"
  have adm: "admissible (Draw 2000) demoReleased" by (simp add: demoReleased_fields)
  show "reachable ?s'" by (rule reach_step[OF demoReleased_fields(1) adm])
  show nl: "\<not> isLongPress ?s'" and "\<not> isPointerDown ?s'"
    using demoReleased_fields(4,5) by (simp_all add: frame_fields)
  show now: "logicalNow ?s' = 2000" and "lastReal ?s' = 2000" and cyc: "CYCLE_MS ?s' = 5400"
    using demoReleased_fields(3)
    by (simp_all add: frame_fields updateClock_def demoReleased_fields HALF_MS_def)
  have t0: "0 \<le> (1000::real)" by simp
  note rf = released_frame_tile[OF demoReleased_fields(1) adm, of 0 0 ?s' 1000 2000 5400,
      OF _ _ refl nl demoReleased_fields(9)[symmetric] t0 now[symmetric] cyc[symmetric]]
  have b: "0 < ROWS" "0 < COLS" by (simp_all add: ROWS_def COLS_def)
  from rf[OF b] show "stopAtMs ?s' ! 0 ! 0 = 6400"
    using demoReleased_fields(8,10) by blast
  with rf[OF b] show "startMs ?s' ! 0 ! 0 = 1000" by simp
qed

lemma frame_now:
  "\<not> clockPaused s \<Longrightarrow> logicalNow (step (Draw r) s) = logicalNow s + (r - lastReal s)"
  by (simp add: frame_fields updateClock_def)

lemma demoDone:
  "startMs (step (Draw 6400) (step (Draw 2000) demoReleased)) ! 0 ! 0 = - 2"
proof -
  let ?s = "step (Draw 2000) demoReleased"
  let ?s' = "step (Draw 6400) ?s"
  have adm: "admissible (Draw 6400) ?s" by (simp only: admissible.simps demoStopping_fields)
  have nl: "\<not> isLongPress ?s'"
    using demoStopping_fields(2,3) by (simp add: frame_fields)
  have np: "\<not> clockPaused ?s"
    using demoReleased_fields(2) by (simp add: frame_fields)
  have now: "logicalNow ?s' = 6400"
    unfolding frame_now[OF np] demoStopping_fields(4,5) by simp
  have t0: "0 \<le> (1000::real)" by simp
  have b: "0 < ROWS" "0 < COLS" by (simp_all add: ROWS_def COLS_def)
  note rf = released_frame_tile[OF demoStopping_fields(1) adm b refl nl
      demoStopping_fields(7)[symmetric] t0 now[symmetric] refl]
  have "stopAtMs ?s' ! 0 ! 0 = 6400"
    using rf demoStopping_fields(8) by simp
  moreover have "startMs ?s' ! 0 ! 0 = (if stopAtMs ?s' ! 0 ! 0 \<le> 6400 then - 2 else 1000)"
    using rf by blast
  ultimately show ?thesis by simp
qed

subsection \<open>The planned stop over a run, and a gesture followed by re-tuning\<close>

lemma nat_cycles_rem:
  assumes "c \<noteq> 0" "b = t0 + real n * c"
  shows "js_rem (b - t0) c = 0"
proof -
  have "b - t0 = of_int (int n) * c" using assms(2) by simp
  then show ?thesis using js_rem_multiple[OF assms(1), of "int n"] by simp
qed

text \<open>The facts about one tile that a run without re-tuning and without a new gesture keeps.\<close>

lemma tile_stop_step:
  assumes inv: "sketchInv s" and adm: "admissible e s" and ng: "\<not> longPressBegins e s"
    and b: "iy < ROWS" "ix < COLS" and t0: "0 \<le> t0"
    and h: "HOLD_MS s = h" and c: "c = 3 * (HALF_MS + h)"
    and J: "(startMs s ! iy ! ix = t0 \<or> startMs s ! iy ! ix = - 2)
         \<and> (stopAtMs s ! iy ! ix = - 1
              \<or> (\<exists>n::nat. stopAtMs s ! iy ! ix = t0 + real n * c) \<and> CYCLE_MS s = c)
         \<and> (startMs s ! iy ! ix = - 2 \<longrightarrow>
               stopAtMs s ! iy ! ix \<noteq> - 1 \<and> stopAtMs s ! iy ! ix \<le> logicalNow s)
         \<and> (startMs s ! iy ! ix = t0 \<and> stopAtMs s ! iy ! ix \<noteq> - 1 \<longrightarrow>
               logicalNow s < stopAtMs s ! iy ! ix)"
  shows "(startMs (step e s) ! iy ! ix = t0 \<or> startMs (step e s) ! iy ! ix = - 2)
         \<and> (stopAtMs (step e s) ! iy ! ix = - 1
              \<or> (\<exists>n::nat. stopAtMs (step e s) ! iy ! ix = t0 + real n * c)
                 \<and> CYCLE_MS (step e s) = c)
         \<and> (startMs (step e s) ! iy ! ix = - 2 \<longrightarrow>
               stopAtMs (step e s) ! iy ! ix \<noteq> - 1
               \<and> stopAtMs (step e s) ! iy ! ix \<le> logicalNow (step e s))
         \<and> (startMs (step e s) ! iy ! ix = t0 \<and> stopAtMs (step e s) ! iy ! ix \<noteq> - 1 \<longrightarrow>
               logicalNow (step e s) < stopAtMs (step e s) ! iy ! ix)"
proof (cases "\<exists>r. e = Draw r")
  case False
  then have "startMs (step e s) = startMs s \<and> stopAtMs (step e s) = stopAtMs s
         \<and> logicalNow (step e s) = logicalNow s \<and> CYCLE_MS (step e s) = CYCLE_MS s"
    using handler_grid[of e s] by blast
  then show ?thesis using J by simp
next
  case True
  then obtain r where e: "e = Draw r" by blast
  let ?p = "preRender r s"
  have r: "lastReal s \<le> r" using adm e by simp
  have nb: "\<not> longPressBegins (Draw r) s" using ng e by simp
  have g: "startMs ?p = startMs s" "stopAtMs ?p = stopAtMs s" "isLongPress ?p = isLongPress s"
    using nb by (simp_all add: preRender_grid del: longPressBegins.simps)
  have now: "logicalNow s \<le> logicalNow ?p"
    using logicalNow_mono[OF r] by (simp add: preRender_fields)
  have cyc: "CYCLE_MS ?p = c" by (simp add: preRender_fields h c)
  have cpos: "0 < c" using inv h by (simp add: c sketchInv_def HALF_MS_def HOLD_MIN_def)
  have st: "step e s = fst (renderGrid ?p)" by (simp add: e drawFrame_preRender)
  have fld: "logicalNow (step e s) = logicalNow ?p" "CYCLE_MS (step e s) = c"
    by (simp_all add: st logicalNow_renderGrid renderGrid_other cyc)
  show ?thesis
  proof (cases "isLongPress s")
    case True
    then have u: "startMs s ! iy ! ix \<noteq> - 2" "stopAtMs s ! iy ! ix = - 1"
      using inv b by (simp_all add: sketchInv_def tilesInv_def)
    then have a: "startMs s ! iy ! ix = t0" using J by blast
    have l: "isLongPress ?p" using True g by simp
    have "startMs (step e s) ! iy ! ix = t0" "stopAtMs (step e s) ! iy ! ix = - 1"
      using a u t0
      by (simp_all add: st renderGrid_cells[OF b] renderTile_longPress[OF l] g)
    then show ?thesis using t0 by simp
  next
    case False
    then have nl: "\<not> isLongPress ?p" using g by simp
    show ?thesis
    proof (cases "startMs s ! iy ! ix = - 2")
      case True
      then have "startMs (step e s) ! iy ! ix = - 2"
        "stopAtMs (step e s) ! iy ! ix = stopAtMs s ! iy ! ix"
        by (simp_all add: st renderGrid_cells[OF b] renderTile_released(1,2)[OF nl] g)
      then show ?thesis using J True now t0 by (auto simp add: fld)
    next
      case nd: False
      then have a: "startMs s ! iy ! ix = t0" using J by blast
      have ns: "t0 \<noteq> - 1" "t0 \<noteq> - 2" using t0 by simp_all
      have "t0 \<le> logicalNow s"
        using inv b a t0 unfolding sketchInv_def tilesInv_def by force
      then have el: "0 \<le> logicalNow ?p - t0" using now by simp
      note ce = ceiling_boundary[OF cpos el]
      define k where "k = nat \<lceil>(logicalNow ?p - t0) / c\<rceil>"
      have stop: "stopAtMs (step e s) ! iy ! ix
                    = (if stopAtMs s ! iy ! ix \<noteq> - 1 then stopAtMs s ! iy ! ix
                       else t0 + real k * c)"
        using ns ce(3)
        by (simp add: st renderGrid_cells[OF b] renderTile_released(1)[OF nl] g a cyc k_def)
      have start: "startMs (step e s) ! iy ! ix
                    = (if stopAtMs (step e s) ! iy ! ix \<le> logicalNow ?p then - 2 else t0)"
        using ns
        by (simp add: st renderGrid_cells[OF b] renderTile_released(2)[OF nl] g a)
      have ex: "\<exists>n::nat. stopAtMs (step e s) ! iy ! ix = t0 + real n * c"
        using J stop by (cases "stopAtMs s ! iy ! ix = - 1") auto
      then obtain n :: nat where n: "stopAtMs (step e s) ! iy ! ix = t0 + real n * c" by blast
      have "0 \<le> real n * c" using cpos by simp
      then have nn: "stopAtMs (step e s) ! iy ! ix \<noteq> - 1" using n t0 by linarith
      show ?thesis
        using ex nn start ns by (auto simp add: fld)
    qed
  qed
qed


lemma tile_stop_run:
  assumes "reachable s" "admissibleRun evs s" "noNewGesture evs s" "holdConstant h evs s"
    and b: "iy < ROWS" "ix < COLS" and t0: "0 \<le> t0" and c: "c = 3 * (HALF_MS + h)"
    and "(startMs s ! iy ! ix = t0 \<or> startMs s ! iy ! ix = - 2)
         \<and> (stopAtMs s ! iy ! ix = - 1
              \<or> (\<exists>n::nat. stopAtMs s ! iy ! ix = t0 + real n * c) \<and> CYCLE_MS s = c)
         \<and> (startMs s ! iy ! ix = - 2 \<longrightarrow>
               stopAtMs s ! iy ! ix \<noteq> - 1 \<and> stopAtMs s ! iy ! ix \<le> logicalNow s)
         \<and> (startMs s ! iy ! ix = t0 \<and> stopAtMs s ! iy ! ix \<noteq> - 1 \<longrightarrow>
               logicalNow s < stopAtMs s ! iy ! ix)"
  shows "(startMs (run evs s) ! iy ! ix = t0 \<or> startMs (run evs s) ! iy ! ix = - 2)
         \<and> (stopAtMs (run evs s) ! iy ! ix = - 1
              \<or> (\<exists>n::nat. stopAtMs (run evs s) ! iy ! ix = t0 + real n * c)
                 \<and> CYCLE_MS (run evs s) = c)
         \<and> (startMs (run evs s) ! iy ! ix = - 2 \<longrightarrow>
               stopAtMs (run evs s) ! iy ! ix \<noteq> - 1
               \<and> stopAtMs (run evs s) ! iy ! ix \<le> logicalNow (run evs s))
         \<and> (startMs (run evs s) ! iy ! ix = t0 \<and> stopAtMs (run evs s) ! iy ! ix \<noteq> - 1 \<longrightarrow>
               logicalNow (run evs s) < stopAtMs (run evs s) ! iy ! ix)"
  using assms(1,2,3,4,9)
proof (induction evs arbitrary: s)
  case Nil
  then show ?case by simp
next
  case (Cons e evs)
  have inv: "sketchInv s" using Cons.prems(1) by (rule reachable_inv)
  have adm: "admissible e s" "admissibleRun evs (step e s)" using Cons.prems(2) by simp_all
  have ng: "\<not> longPressBegins e s" "noNewGesture evs (step e s)" using Cons.prems(3) by simp_all
  have hc: "HOLD_MS s = h" "holdConstant h evs (step e s)" using Cons.prems(4) by simp_all
  have r: "reachable (step e s)" by (rule reach_step[OF Cons.prems(1) adm(1)])
  note one = tile_stop_step[OF inv adm(1) ng(1) b t0 hc(1) c Cons.prems(5)]
  show ?case
    using Cons.IH[OF r adm(2) ng(2) hc(2) one] by simp
qed

lemma dist_p5_horizontal: "dist_p5 a b c b = \<bar>c - a\<bar>"
  by (simp add: dist_p5_def)

lemma frame_SEG: "SEG_MS (fst (drawFrame r s)) = HALF_MS + HOLD_MS s"
  by (simp add: drawFrame_preRender renderGrid_other preRender_fields)

lemma demoStopping_more:
  "\<not> active (knob (step (Draw 2000) demoReleased))"
  "\<not> clockPaused (step (Draw 2000) demoReleased)"
  "HOLD_MS (step (Draw 2000) demoReleased) = 1500"
  using demoReleased_fields(2,8) by (simp_all add: frame_fields)

lemma demoRetuned_fields:
  "reachable demoRetuned" "\<not> active (knob demoRetuned)" "\<not> clockPaused demoRetuned"
  "\<not> isPointerDown demoRetuned" "\<not> isLongPress demoRetuned"
  "logicalNow demoRetuned = 2000" "lastReal demoRetuned = 2000" "HOLD_MS demoRetuned = 30"
  "startMs demoRetuned ! 0 ! 0 = 1000" "stopAtMs demoRetuned ! 0 ! 0 = 6400"
proof -
  let ?s5 = "step (Draw 2000) demoReleased"
  let ?s6 = "step (TouchStarted [\<lparr>pt_x = 0, pt_y = 0\<rparr>, \<lparr>pt_x = 1000, pt_y = 0\<rparr>] 0 0) ?s5"
  let ?s7 = "step (TouchMoved [\<lparr>pt_x = 0, pt_y = 0\<rparr>, \<lparr>pt_x = 10, pt_y = 0\<rparr>]) ?s6"
  let ?s8 = "step (MousePressed 0 0) ?s7"
  have d: "demoRetuned = ?s8" by (simp only: demoRetuned_def run.simps)
  have r6: "reachable ?s6" by (rule reach_step[OF demoStopping_fields(1)]) simp
  have r7: "reachable ?s7" by (rule reach_step[OF r6]) simp
  show "reachable demoRetuned" unfolding d by (rule reach_step[OF r7]) simp
  have s6: "active (knob ?s6)" "lastDist (knob ?s6) = 1000" "HOLD_MS ?s6 = 1500"
    "\<not> isPointerDown ?s6" "\<not> isLongPress ?s6" "logicalNow ?s6 = 2000" "lastReal ?s6 = 2000"
    "startMs ?s6 = startMs ?s5" "stopAtMs ?s6 = stopAtMs ?s5"
    using demoStopping_fields(2,3,4,5) demoStopping_more(3)
    by (simp_all add: touchStarted_def enterKnobMode_def Let_def dist_p5_horizontal
        del: step.simps(1))
  have s7: "active (knob ?s7)" "HOLD_MS ?s7 = 30"
    "\<not> isPointerDown ?s7" "\<not> isLongPress ?s7" "logicalNow ?s7 = 2000" "lastReal ?s7 = 2000"
    "startMs ?s7 = startMs ?s5" "stopAtMs ?s7 = stopAtMs ?s5"
    using s6
    by (simp_all add: touchMoved_def updateKnobWithPinch_def Let_def dist_p5_horizontal
        constrain_def KNOB_SENSITIVITY_def HOLD_MIN_def HOLD_MAX_def del: step.simps(1))
  have s8: "\<not> active (knob ?s8)" "\<not> clockPaused ?s8" "HOLD_MS ?s8 = 30"
    "\<not> isPointerDown ?s8" "\<not> isLongPress ?s8" "logicalNow ?s8 = 2000" "lastReal ?s8 = 2000"
    "startMs ?s8 = startMs ?s5" "stopAtMs ?s8 = stopAtMs ?s5"
    using s7 by (simp_all add: mousePressed_def del: step.simps(1))
  show "\<not> active (knob demoRetuned)" "\<not> clockPaused demoRetuned"
    "\<not> isPointerDown demoRetuned" "\<not> isLongPress demoRetuned"
    "logicalNow demoRetuned = 2000" "lastReal demoRetuned = 2000" "HOLD_MS demoRetuned = 30"
    unfolding d using s8 by blast+
  show "startMs demoRetuned ! 0 ! 0 = 1000" "stopAtMs demoRetuned ! 0 ! 0 = 6400"
    unfolding d s8 by (rule demoStopping_fields)+
qed


lemma demoRetuned_last_frames:
  "reachable (step (Draw 6399) demoRetuned)"
  "\<not> isPointerDown (step (Draw 6399) demoRetuned)"
  "\<not> isLongPress (step (Draw 6399) demoRetuned)"
  "\<not> clockPaused (step (Draw 6399) demoRetuned)"
  "logicalNow (step (Draw 6399) demoRetuned) = 6399"
  "lastReal (step (Draw 6399) demoRetuned) = 6399"
  "CYCLE_MS (step (Draw 6399) demoRetuned) = 990"
  "SEG_MS (step (Draw 6399) demoRetuned) = 330"
  "HOLD_MS (step (Draw 6399) demoRetuned) = 30"
  "startMs (step (Draw 6399) demoRetuned) ! 0 ! 0 = 1000"
  "stopAtMs (step (Draw 6399) demoRetuned) ! 0 ! 0 = 6400"
proof -
  let ?s' = "step (Draw 6399) demoRetuned"
  have adm: "admissible (Draw 6399) demoRetuned" by (simp add: demoRetuned_fields)
  show "reachable ?s'" by (rule reach_step[OF demoRetuned_fields(1) adm])
  show nl: "\<not> isLongPress ?s'" and "\<not> isPointerDown ?s'" and "\<not> clockPaused ?s'"
    using demoRetuned_fields(2,4,5) by (simp_all add: frame_fields)
  show now: "logicalNow ?s' = 6399" and "lastReal ?s' = 6399" and cyc: "CYCLE_MS ?s' = 990"
    and "SEG_MS ?s' = 330" and "HOLD_MS ?s' = 30"
    using demoRetuned_fields(3)
    by (simp_all add: frame_fields frame_SEG updateClock_def demoRetuned_fields HALF_MS_def)
  have t0: "0 \<le> (1000::real)" by simp
  have b: "0 < ROWS" "0 < COLS" by (simp_all add: ROWS_def COLS_def)
  note rf = released_frame_tile[OF demoRetuned_fields(1) adm b refl nl
      demoRetuned_fields(9)[symmetric] t0 now[symmetric] cyc[symmetric]]
  from rf show stop: "stopAtMs ?s' ! 0 ! 0 = 6400"
    using demoRetuned_fields(10) by simp
  have "startMs ?s' ! 0 ! 0 = (if stopAtMs ?s' ! 0 ! 0 \<le> 6399 then - 2 else 1000)"
    using rf by blast
  then show "startMs ?s' ! 0 ! 0 = 1000" by (simp only: stop) simp
qed

lemma demoFinish_run:
  "admissibleRun [MouseReleased, Draw 2000, Draw 6400] demoLongPress"
  "noNewGesture [MouseReleased, Draw 2000, Draw 6400] demoLongPress"
  "holdConstant 1500 [MouseReleased, Draw 2000, Draw 6400] demoLongPress"
  "run [MouseReleased, Draw 2000, Draw 6400] demoLongPress
     = step (Draw 6400) (step (Draw 2000) demoReleased)"
proof -
  have s1: "step MouseReleased demoLongPress = demoReleased" by (simp add: demoReleased_def)
  show "admissibleRun [MouseReleased, Draw 2000, Draw 6400] demoLongPress"
    unfolding admissibleRun.simps s1 admissible.simps
    by (simp only: demoReleased_fields demoStopping_fields) simp
  show "noNewGesture [MouseReleased, Draw 2000, Draw 6400] demoLongPress"
    unfolding noNewGesture.simps s1 longPressBegins.simps
    using demoReleased_fields(4) demoStopping_fields(2) by blast
  have "HOLD_MS (step (Draw 6400) (step (Draw 2000) demoReleased)) = 1500"
    using demoStopping_more(3) by (simp add: frame_fields)
  then show "holdConstant 1500 [MouseReleased, Draw 2000, Draw 6400] demoLongPress"
    unfolding holdConstant.simps s1
    using demoLongPress_fields(10) demoReleased_fields(8) demoStopping_more(3) by blast
  show "run [MouseReleased, Draw 2000, Draw 6400] demoLongPress
     = step (Draw 6400) (step (Draw 2000) demoReleased)"
    unfolding run.simps s1 ..
qed

subsection \<open>The clock\<close>

text \<open>
  Claim C7. The clock tick (\<open>updateClock\<close>) adds the wall-clock delta to \<open>logicalNow\<close> if
  and only if \<open>clockPaused\<close> is false, and leaves it unchanged otherwise. Hence, from a
  state in tuning mode (knob active, clock paused), \<open>logicalNow\<close> is the same after any
  number of frames, and more generally after any run of events after each of which the knob
  is still active. Pausing (\<open>enterKnobMode\<close>) and resuming (the exits in \<open>mousePressed\<close>
  and \<open>touchStarted\<close>) do not alter \<open>logicalNow\<close>.
\<close>

theorem clock_tick_iff_not_paused:
  "logicalNow (updateClock realNow s)
     = (if clockPaused s then logicalNow s else logicalNow s + (realNow - lastReal s))
   \<and> (active (knob s) \<and> clockPaused s \<longrightarrow>
        (\<forall>rs. logicalNow (run (map Draw rs) s) = logicalNow s)
        \<and> (\<forall>evs. staysTuning evs s \<longrightarrow> logicalNow (run evs s) = logicalNow s))
   \<and> logicalNow (enterKnobMode p1 p2 s) = logicalNow s
   \<and> logicalNow (mousePressed mx my s) = logicalNow s
   \<and> logicalNow (touchStarted ts mx my s) = logicalNow s"
  using staysTuning_logicalNow frames_stay_tuning
  by (simp add: handlers_logicalNow updateClock_def)

theorem clock_tick_iff_not_paused_witness:
  "active (knob (enterKnobMode \<lparr>pt_x = 100, pt_y = 100\<rparr> \<lparr>pt_x = 200, pt_y = 100\<rparr> demoStart))
   \<and> clockPaused (enterKnobMode \<lparr>pt_x = 100, pt_y = 100\<rparr> \<lparr>pt_x = 200, pt_y = 100\<rparr> demoStart)
   \<and> logicalNow (run (map Draw [16, 33, 50])
        (enterKnobMode \<lparr>pt_x = 100, pt_y = 100\<rparr> \<lparr>pt_x = 200, pt_y = 100\<rparr> demoStart)) = 0
   \<and> logicalNow (updateClock 16 demoStart) = 16"
proof -
  let ?s = "enterKnobMode \<lparr>pt_x = 100, pt_y = 100\<rparr> \<lparr>pt_x = 200, pt_y = 100\<rparr> demoStart"
  have a: "active (knob ?s)" "clockPaused ?s" "logicalNow ?s = 0"
    by (simp_all add: enterKnobMode_def Let_def demoStart_clock)
  have b: "logicalNow (updateClock 16 demoStart) = 16"
    using clock_tick_iff_not_paused[of 16 demoStart] by (simp add: demoStart_clock)
  have "logicalNow (run (map Draw [16, 33, 50]) ?s) = logicalNow ?s"
    using clock_tick_iff_not_paused[of 0 ?s] a by blast
  then show ?thesis using a b by simp
qed

text \<open>
  Claim C8. In every reachable state, that is after \<open>setup\<close> and after each input handler
  and each frame, \<open>knob.active\<close> equals \<open>clockPaused\<close>; and every single event keeps the
  two flags equal: a transition that sets or clears one sets or clears the other.
\<close>

theorem knob_active_iff_clock_paused:
  "(reachable s \<longrightarrow> active (knob s) = clockPaused s)
   \<and> (active (knob s) = clockPaused s \<longrightarrow>
        active (knob (step e s)) = clockPaused (step e s))"
  using reachable_sync step_sync by blast

theorem knob_active_iff_clock_paused_witness:
  "reachable (step (TouchStarted [\<lparr>pt_x = 100, pt_y = 100\<rparr>, \<lparr>pt_x = 200, pt_y = 100\<rparr>] 0 0) demoStart)
   \<and> active (knob (step (TouchStarted [\<lparr>pt_x = 100, pt_y = 100\<rparr>, \<lparr>pt_x = 200, pt_y = 100\<rparr>] 0 0) demoStart))
   \<and> clockPaused (step (TouchStarted [\<lparr>pt_x = 100, pt_y = 100\<rparr>, \<lparr>pt_x = 200, pt_y = 100\<rparr>] 0 0) demoStart)"
proof -
  let ?s = "step (TouchStarted [\<lparr>pt_x = 100, pt_y = 100\<rparr>, \<lparr>pt_x = 200, pt_y = 100\<rparr>] 0 0) demoStart"
  have r: "reachable ?s"
    by (rule reach_step[OF demoStart_reachable]) simp
  have a: "active (knob ?s)"
    by (simp add: touchStarted_def enterKnobMode_def Let_def)
  show ?thesis
    using r a knob_active_iff_clock_paused[of ?s] by simp
qed

text \<open>
  Claim C10. \<open>lastReal\<close> is updated by every frame, paused or not, so the wall-clock time
  that passes while the clock is paused is never applied: the first frame after a resume
  adds only its own delta to the frame before it. For every run of events, the final
  \<open>logicalNow\<close> is the initial one plus the sum of the wall-clock deltas of the frames
  that start unpaused, as computed by \<open>unpausedDeltas\<close> from the events alone.
\<close>

theorem resume_skips_paused_time:
  "(reachable s \<longrightarrow>
      logicalNow (run evs s)
        = logicalNow s + unpausedDeltas (lastReal s) (clockPaused s) evs)
   \<and> logicalNow (run evs (setupSketch w h m sc)) = unpausedDeltas m False evs
   \<and> lastReal (step (Draw realNow) s) = realNow
   \<and> (active (knob s) \<and> clockPaused s \<longrightarrow>
        logicalNow (run (map Draw rs @ [MousePressed mx my, Draw realNow]) s)
          = logicalNow s + (realNow - last (lastReal s # rs)))"
proof (intro conjI impI)
  assume "reachable s"
  then show "logicalNow (run evs s)
        = logicalNow s + unpausedDeltas (lastReal s) (clockPaused s) evs"
    by (intro run_clock_spec reachable_sync)
next
  show "logicalNow (run evs (setupSketch w h m sc)) = unpausedDeltas m False evs"
    using run_clock_spec[OF setup_sync, of evs w h m sc] by (simp only: setup_clock)
next
  show "lastReal (step (Draw realNow) s) = realNow" by (simp add: drawFrame_clock)
next
  assume a: "active (knob s) \<and> clockPaused s"
  let ?s1 = "run (map Draw rs) s"
  have p: "active (knob ?s1)" "clockPaused ?s1" "logicalNow ?s1 = logicalNow s"
    "lastReal ?s1 = last (lastReal s # rs)"
    using paused_frames[of s rs] a by simp_all
  have "logicalNow (step (Draw realNow) (mousePressed mx my ?s1))
          = logicalNow ?s1 + (realNow - lastReal ?s1)"
    using p(1) by (simp add: drawFrame_clock updateClock_def mousePressed_def)
  then show "logicalNow (run (map Draw rs @ [MousePressed mx my, Draw realNow]) s)
          = logicalNow s + (realNow - last (lastReal s # rs))"
    using p by (simp add: run_append del: step.simps(1)) 
qed

theorem resume_skips_paused_time_witness:
  "reachable demoStart
   \<and> logicalNow (run [Draw 10,
         TouchStarted [\<lparr>pt_x = 100, pt_y = 100\<rparr>, \<lparr>pt_x = 200, pt_y = 100\<rparr>] 0 0,
         Draw 30, Draw 50, MousePressed 0 0, Draw 60] demoStart) = 20"
  using resume_skips_paused_time[of demoStart "[Draw 10,
         TouchStarted [\<lparr>pt_x = 100, pt_y = 100\<rparr>, \<lparr>pt_x = 200, pt_y = 100\<rparr>] 0 0,
         Draw 30, Draw 50, MousePressed 0 0, Draw 60]"] demoStart_reachable
  by (simp add: demoStart_clock)

subsection \<open>The knob\<close>

text \<open>
  Claim C6. After a pinch update \<open>HOLD_MS\<close> lies in \<open>[HOLD_MIN, HOLD_MAX]\<close>; starting
  in that range, it is in the range after every prefix of every sequence of pinch updates,
  whatever the touch points (and so the distance deltas) are, and after every run of events.
\<close>

theorem holdMs_stays_in_range:
  "HOLD_MIN \<le> HOLD_MS (updateKnobWithPinch p1 p2 s)
   \<and> HOLD_MS (updateKnobWithPinch p1 p2 s) \<le> HOLD_MAX
   \<and> (HOLD_MIN \<le> HOLD_MS s \<and> HOLD_MS s \<le> HOLD_MAX \<longrightarrow>
        (\<forall>n \<le> length ps. HOLD_MIN \<le> HOLD_MS (pinchUpdates (take n ps) s)
                          \<and> HOLD_MS (pinchUpdates (take n ps) s) \<le> HOLD_MAX)
        \<and> (\<forall>evs. HOLD_MIN \<le> HOLD_MS (run evs s) \<and> HOLD_MS (run evs s) \<le> HOLD_MAX))"
  using hold_after_pinch hold_pinchUpdates hold_run by blast

theorem holdMs_stays_in_range_witness:
  "HOLD_MIN \<le> HOLD_MS demoStart \<and> HOLD_MS demoStart \<le> HOLD_MAX
   \<and> HOLD_MS (pinchUpdates
        [(\<lparr>pt_x = 0, pt_y = 0\<rparr>, \<lparr>pt_x = 3000, pt_y = 0\<rparr>),
         (\<lparr>pt_x = 0, pt_y = 0\<rparr>, \<lparr>pt_x = 10, pt_y = 0\<rparr>)] demoStart) \<le> HOLD_MAX
   \<and> HOLD_MIN \<le> HOLD_MS (pinchUpdates
        [(\<lparr>pt_x = 0, pt_y = 0\<rparr>, \<lparr>pt_x = 3000, pt_y = 0\<rparr>),
         (\<lparr>pt_x = 0, pt_y = 0\<rparr>, \<lparr>pt_x = 10, pt_y = 0\<rparr>)] demoStart)"
proof -
  let ?ps = "[(\<lparr>pt_x = 0, pt_y = 0\<rparr>, \<lparr>pt_x = 3000, pt_y = 0\<rparr>),
         (\<lparr>pt_x = 0, pt_y = 0\<rparr>, \<lparr>pt_x = 10::real, pt_y = 0\<rparr>)]"
  have h: "HOLD_MIN \<le> HOLD_MS demoStart \<and> HOLD_MS demoStart \<le> HOLD_MAX"
    by (simp add: demoStart_clock HOLD_MIN_def HOLD_MAX_def)
  have "\<forall>n \<le> length ?ps. HOLD_MIN \<le> HOLD_MS (pinchUpdates (take n ?ps) demoStart)
                          \<and> HOLD_MS (pinchUpdates (take n ?ps) demoStart) \<le> HOLD_MAX"
    using holdMs_stays_in_range[of _ _ demoStart ?ps] h by blast
  from this[rule_format, of 2] show ?thesis using h by simp
qed

subsection \<open>The wave emitter field\<close>

text \<open>
  Claim C2. For every time and point, \<open>hitByAnyEmitter\<close> is true if and only if some
  emitter of the collection has a non-negative age \<open>now - t0\<close> and its ring radius
  \<open>R = age * WAVE_SPEED_PX_PER_MS\<close> satisfies \<open>|dist(point, origin) - R| \<le> ACTIVATION_BAND\<close>;
  an emitter of negative age never matches. With a single emitter, the test at the emitter's
  own origin is true exactly for ages in \<open>[0, ACTIVATION_BAND / WAVE_SPEED_PX_PER_MS]\<close>, and
  a point at distance 100 is covered exactly for ages in \<open>[75, 175]\<close>.
\<close>

theorem covers_iff_some_ring_in_band:
  "(hitByAnyEmitter s now px py \<longleftrightarrow>
     (\<exists>e \<in> set (emitters s). 0 \<le> now - em_t0 e
        \<and> \<bar>dist_p5 px py (em_x e) (em_y e) - (now - em_t0 e) * WAVE_SPEED_PX_PER_MS\<bar>
             \<le> ACTIVATION_BAND))
   \<and> (emitters s = [e] \<longrightarrow>
        (hitByAnyEmitter s now (em_x e) (em_y e) \<longleftrightarrow>
           0 \<le> now - em_t0 e
           \<and> now - em_t0 e \<le> ACTIVATION_BAND / WAVE_SPEED_PX_PER_MS))
   \<and> (emitters s = [e] \<and> dist_p5 px py (em_x e) (em_y e) = 100 \<longrightarrow>
        (hitByAnyEmitter s now px py \<longleftrightarrow> 75 \<le> now - em_t0 e \<and> now - em_t0 e \<le> 175))"
proof (intro conjI impI)
  show "hitByAnyEmitter s now px py \<longleftrightarrow>
     (\<exists>e \<in> set (emitters s). 0 \<le> now - em_t0 e
        \<and> \<bar>dist_p5 px py (em_x e) (em_y e) - (now - em_t0 e) * WAVE_SPEED_PX_PER_MS\<bar>
             \<le> ACTIVATION_BAND)"
    by (rule hitByAnyEmitter_iff)
next
  assume "emitters s = [e]"
  then show "hitByAnyEmitter s now (em_x e) (em_y e) \<longleftrightarrow>
           0 \<le> now - em_t0 e \<and> now - em_t0 e \<le> ACTIVATION_BAND / WAVE_SPEED_PX_PER_MS"
    using band_at_origin[of "now - em_t0 e"] by (simp add: hitByAnyEmitter_iff dist_p5_self)
next
  assume "emitters s = [e] \<and> dist_p5 px py (em_x e) (em_y e) = 100"
  then show "hitByAnyEmitter s now px py \<longleftrightarrow> 75 \<le> now - em_t0 e \<and> now - em_t0 e \<le> 175"
    using band_at_100[of "now - em_t0 e"] by (simp add: hitByAnyEmitter_iff)
qed

theorem covers_iff_some_ring_in_band_witness:
  "emitters (demoStart\<lparr> emitters := [\<lparr>em_t0 = 1000, em_x = 0, em_y = 0\<rparr>] \<rparr>)
      = [\<lparr>em_t0 = 1000, em_x = 0, em_y = 0\<rparr>]
   \<and> dist_p5 100 0 (em_x \<lparr>em_t0 = 1000, em_x = 0, em_y = 0\<rparr>)
        (em_y \<lparr>em_t0 = 1000, em_x = 0, em_y = 0\<rparr>) = 100
   \<and> hitByAnyEmitter (demoStart\<lparr> emitters := [\<lparr>em_t0 = 1000, em_x = 0, em_y = 0\<rparr>] \<rparr>)
        1075 100 0
   \<and> \<not> hitByAnyEmitter (demoStart\<lparr> emitters := [\<lparr>em_t0 = 1000, em_x = 0, em_y = 0\<rparr>] \<rparr>)
        1074 100 0
   \<and> hitByAnyEmitter (demoStart\<lparr> emitters := [\<lparr>em_t0 = 1000, em_x = 0, em_y = 0\<rparr>] \<rparr>)
        1050 0 0
   \<and> \<not> hitByAnyEmitter (demoStart\<lparr> emitters := [\<lparr>em_t0 = 1000, em_x = 0, em_y = 0\<rparr>] \<rparr>)
        1051 0 0"
proof -
  let ?e = "\<lparr>em_t0 = 1000, em_x = 0, em_y = 0\<rparr>"
  let ?s = "demoStart\<lparr> emitters := [?e] \<rparr>"
  have h: "emitters ?s = [?e] \<and> dist_p5 100 0 (em_x ?e) (em_y ?e) = 100"
    by (simp add: dist_p5_100)
  have a: "hitByAnyEmitter ?s now 100 0 \<longleftrightarrow> 75 \<le> now - em_t0 ?e \<and> now - em_t0 ?e \<le> 175"
    for now
    using covers_iff_some_ring_in_band[of ?s now 100 0 ?e] h by blast
  have b: "hitByAnyEmitter ?s now (em_x ?e) (em_y ?e) \<longleftrightarrow>
           0 \<le> now - em_t0 ?e \<and> now - em_t0 ?e \<le> ACTIVATION_BAND / WAVE_SPEED_PX_PER_MS"
    for now
    using covers_iff_some_ring_in_band[of ?s now _ _ ?e] h by blast
  show ?thesis
    using h a[of 1075] a[of 1074] b[of 1050] b[of 1051]
    by (simp add: ACTIVATION_BAND_def WAVE_SPEED_PX_PER_MS_def)
qed

text \<open>
  Claim C9. \<open>pruneEmitters\<close> removes exactly the longest prefix of the collection (the
  oldest emitters) whose ring radius \<open>R = (now - t0) * WAVE_SPEED_PX_PER_MS\<close> is no longer
  below \<open>maxReachDist\<close> (the source's test for "still within reach" is \<open>R < maxReachDist\<close>):
  what is kept is the collection from its first emitter with \<open>R < maxReachDist\<close> on, every
  removed emitter has \<open>R \<ge> maxReachDist\<close>, the removed emitters are a prefix, so nothing
  is removed behind a kept emitter, and no longer prefix of expired emitters exists.
\<close>

theorem prune_removes_longest_expired_prefix:
  "emitters (pruneEmitters now s)
     = dropWhile (\<lambda>e. maxReachDist s \<le> (now - em_t0 e) * WAVE_SPEED_PX_PER_MS) (emitters s)
   \<and> emitters s
       = takeWhile (\<lambda>e. maxReachDist s \<le> (now - em_t0 e) * WAVE_SPEED_PX_PER_MS) (emitters s)
         @ emitters (pruneEmitters now s)
   \<and> (\<forall>e \<in> set (takeWhile (\<lambda>e. maxReachDist s \<le> (now - em_t0 e) * WAVE_SPEED_PX_PER_MS)
                      (emitters s)).
         \<not> (now - em_t0 e) * WAVE_SPEED_PX_PER_MS < maxReachDist s)
   \<and> (emitters (pruneEmitters now s) \<noteq> [] \<longrightarrow>
         (now - em_t0 (hd (emitters (pruneEmitters now s)))) * WAVE_SPEED_PX_PER_MS
            < maxReachDist s)
   \<and> (\<forall>n \<le> length (emitters s).
         (\<forall>e \<in> set (take n (emitters s)).
             maxReachDist s \<le> (now - em_t0 e) * WAVE_SPEED_PX_PER_MS)
         \<longrightarrow> n \<le> length (emitters s) - length (emitters (pruneEmitters now s)))"
proof -
  let ?P = "\<lambda>e. maxReachDist s \<le> (now - em_t0 e) * WAVE_SPEED_PX_PER_MS"
  have a: "emitters (pruneEmitters now s) = dropWhile ?P (emitters s)"
    by (rule pruneEmitters_dropWhile)
  have b: "emitters s = takeWhile ?P (emitters s) @ emitters (pruneEmitters now s)"
    by (simp add: a)
  have c: "\<forall>e \<in> set (takeWhile ?P (emitters s)).
             \<not> (now - em_t0 e) * WAVE_SPEED_PX_PER_MS < maxReachDist s"
    by (auto dest: set_takeWhileD)
  have d: "emitters (pruneEmitters now s) \<noteq> [] \<longrightarrow>
         (now - em_t0 (hd (emitters (pruneEmitters now s)))) * WAVE_SPEED_PX_PER_MS
            < maxReachDist s"
  proof
    assume "emitters (pruneEmitters now s) \<noteq> []"
    then have "dropWhile ?P (emitters s) \<noteq> []" by (simp add: a)
    then have "\<not> ?P (hd (dropWhile ?P (emitters s)))" by (rule hd_dropWhile)
    then show "(now - em_t0 (hd (emitters (pruneEmitters now s)))) * WAVE_SPEED_PX_PER_MS
            < maxReachDist s" by (simp add: a not_le)
  qed
  have len: "length (emitters s) - length (emitters (pruneEmitters now s))
               = length (takeWhile ?P (emitters s))"
    using length_takeWhile_le[of ?P "emitters s"] by (simp add: a dropWhile_eq_drop)
  have e: "\<forall>n \<le> length (emitters s).
         (\<forall>e \<in> set (take n (emitters s)). ?P e)
         \<longrightarrow> n \<le> length (emitters s) - length (emitters (pruneEmitters now s))"
    unfolding len using takeWhile_longest[of _ "emitters s" ?P] by blast
  from a b c d e show ?thesis by blast
qed

theorem prune_removes_longest_expired_prefix_witness:
  "emitters (pruneEmitters 1300
      (demoStart\<lparr> emitters := [\<lparr>em_t0 = 0, em_x = 5, em_y = 5\<rparr>,
                                \<lparr>em_t0 = 900, em_x = 7, em_y = 7\<rparr>],
                   maxReachDist := 1000 \<rparr>))
     = [\<lparr>em_t0 = 900, em_x = 7, em_y = 7\<rparr>]
   \<and> (1300 - em_t0 (hd [\<lparr>em_t0 = 900, em_x = 7, em_y = 7\<rparr>])) * WAVE_SPEED_PX_PER_MS < 1000"
proof -
  let ?s = "demoStart\<lparr> emitters := [\<lparr>em_t0 = 0, em_x = 5, em_y = 5\<rparr>,
                                \<lparr>em_t0 = 900, em_x = 7, em_y = 7\<rparr>],
                   maxReachDist := 1000 \<rparr>"
  have a: "emitters (pruneEmitters 1300 ?s) = [\<lparr>em_t0 = 900, em_x = 7, em_y = 7\<rparr>]"
    using prune_removes_longest_expired_prefix[of 1300 ?s]
    by (simp add: WAVE_SPEED_PX_PER_MS_def)
  have "emitters (pruneEmitters 1300 ?s) \<noteq> [] \<longrightarrow>
         (1300 - em_t0 (hd (emitters (pruneEmitters 1300 ?s)))) * WAVE_SPEED_PX_PER_MS
            < maxReachDist ?s"
    using prune_removes_longest_expired_prefix[of 1300 ?s] by blast
  with a show ?thesis by simp
qed

subsection \<open>The outline at a cycle boundary\<close>

text \<open>
  Claim C5. For every \<open>HOLD_MS\<close> in \<open>[HOLD_MIN, HOLD_MAX]\<close>, with the derived timing of
  the frame, and every elapsed time with \<open>elapsed % CYCLE_MS = 0\<close>: \<open>drawLoopCycle\<close> draws
  exactly the outline that \<open>drawShape\<close> draws for the square (stage 0, factor \<open>k = 0\<close>), and
  so does the tile's iteration of \<open>renderGrid\<close> on every one of its branches.
\<close>

theorem cycle_boundary_draws_square:
  "HOLD_MIN \<le> HOLD_MS s \<Longrightarrow> HOLD_MS s \<le> HOLD_MAX \<Longrightarrow>
   SEG_MS s = HALF_MS + HOLD_MS s \<Longrightarrow> CYCLE_MS s = 3 * SEG_MS s \<Longrightarrow>
     (js_rem elapsedMs (CYCLE_MS s) = 0 \<longrightarrow>
        drawLoopCycle s elapsedMs (sScale s) = drawShape s (sqrX s) (sqrY s))
     \<and> (js_rem (logicalNow s - fst (triggerTile s iy ix)) (CYCLE_MS s) = 0 \<longrightarrow>
        snd (snd (renderTile s iy ix)) = drawShape s (sqrX s) (sqrY s))"
  by (simp add: drawLoopCycle_at_zero drawShape_def renderTile_at_boundary)

theorem cycle_boundary_draws_square_witness:
  "HOLD_MIN \<le> HOLD_MS demoStart \<and> HOLD_MS demoStart \<le> HOLD_MAX
   \<and> SEG_MS demoStart = HALF_MS + HOLD_MS demoStart
   \<and> CYCLE_MS demoStart = 3 * SEG_MS demoStart
   \<and> js_rem 10800 (CYCLE_MS demoStart) = 0
   \<and> drawLoopCycle demoStart 10800 (sScale demoStart)
       = drawShape demoStart (sqrX demoStart) (sqrY demoStart)"
proof -
  have h: "HOLD_MIN \<le> HOLD_MS demoStart" "HOLD_MS demoStart \<le> HOLD_MAX"
    "SEG_MS demoStart = HALF_MS + HOLD_MS demoStart"
    "CYCLE_MS demoStart = 3 * SEG_MS demoStart"
    by (simp_all add: demoStart_clock demoStart_timing HOLD_MIN_def HOLD_MAX_def HALF_MS_def)
  have r: "js_rem 10800 (CYCLE_MS demoStart) = 0"
    by (simp add: demoStart_timing js_rem_def trunc_def)
  show ?thesis
    using cycle_boundary_draws_square[OF h, of 10800] h r by simp
qed

subsection \<open>The tile animation grid\<close>

text \<open>
  Claim C1, as stated: after the release a triggered tile always completes an integer number
  of cycles before it is done and never stops mid-stage. This fails. The stop is planned
  once, with the \<open>CYCLE_MS\<close> of the planning frame, and \<open>CYCLE_MS\<close> follows \<open>HOLD_MS\<close> in
  every frame. In the concrete gesture the tile is triggered at 1000 and the frame at 2000
  plans the stop 6400 with a cycle of 5400; a pinch then brings \<open>HOLD_MS\<close> to 30 and a click
  leaves knob mode. In the frame at 6399 the tile still animates, now with a cycle of 990 and
  segments of 330: the elapsed 5399 has remainder 449, which is stage 1 (circle to triangle),
  119 ms into its morph. In the frame at 6400 the tile is done, at elapsed 5400, which has
  remainder 450 modulo the cycle of 990.
\<close>

theorem stop_after_retune_counterexample:
  "reachable demoRetuned
   \<and> startMs (step (Draw 6399) demoRetuned) ! 0 ! 0 = 1000
   \<and> CYCLE_MS (step (Draw 6399) demoRetuned) = 990
   \<and> SEG_MS (step (Draw 6399) demoRetuned) = 330
   \<and> js_rem (logicalNow (step (Draw 6399) demoRetuned) - 1000)
        (CYCLE_MS (step (Draw 6399) demoRetuned)) = 449
   \<and> startMs (run [Draw 6399, Draw 6400] demoRetuned) ! 0 ! 0 = - 2
   \<and> CYCLE_MS (run [Draw 6399, Draw 6400] demoRetuned) = 990
   \<and> logicalNow (run [Draw 6399, Draw 6400] demoRetuned) - 1000 = 5400
   \<and> js_rem (logicalNow (run [Draw 6399, Draw 6400] demoRetuned) - 1000)
        (CYCLE_MS (run [Draw 6399, Draw 6400] demoRetuned)) = 450"
proof -
  let ?s = "step (Draw 6399) demoRetuned"
  let ?s' = "step (Draw 6400) ?s"
  have adm: "admissible (Draw 6400) ?s"
    by (simp only: admissible.simps demoRetuned_last_frames)
  have nl: "\<not> isLongPress ?s'"
    using demoRetuned_last_frames(2,3) by (simp add: frame_fields)
  have now: "logicalNow ?s' = 6400"
    unfolding frame_now[OF demoRetuned_last_frames(4)] demoRetuned_last_frames(5,6) by simp
  have cyc: "CYCLE_MS ?s' = 990"
    using demoRetuned_last_frames(9) by (simp add: frame_fields HALF_MS_def)
  have t0: "0 \<le> (1000::real)" by simp
  have b: "0 < ROWS" "0 < COLS" by (simp_all add: ROWS_def COLS_def)
  note rf = released_frame_tile[OF demoRetuned_last_frames(1) adm b refl nl
      demoRetuned_last_frames(10)[symmetric] t0 now[symmetric] cyc[symmetric]]
  have stop: "stopAtMs ?s' ! 0 ! 0 = 6400"
    using rf demoRetuned_last_frames(11) by simp
  have "startMs ?s' ! 0 ! 0 = (if stopAtMs ?s' ! 0 ! 0 \<le> 6400 then - 2 else 1000)"
    using rf by blast
  then have fin: "startMs ?s' ! 0 ! 0 = - 2" by (simp only: stop) simp
  have r: "run [Draw 6399, Draw 6400] demoRetuned = ?s'" by (simp only: run.simps)
  have m1: "js_rem (6399 - 1000) 990 = 449" by (simp add: js_rem_def trunc_def)
  have m2: "js_rem (6400 - 1000) 990 = 450" by (simp add: js_rem_def trunc_def)
  show ?thesis
    unfolding r now cyc fin demoRetuned_last_frames(5,7,8,10)
    using demoRetuned_fields(1) m1 m2 by simp
qed

text \<open>
  Claim C1, amended. First, one frame: take a reachable state, a tile that is animating
  (\<open>startMs = t0 \<ge> 0\<close>) and a frame after which no long press is on (the gesture is
  released and this frame begins no new long press, which would reset the tile); \<open>now\<close>
  and \<open>cyc\<close> are the frame's \<open>logicalNow\<close> and \<open>CYCLE_MS\<close>. If the tile's stop is not
  planned yet, the frame sets \<open>stopAtMs\<close> to \<open>t0 + ceil((now - t0) / cyc) * cyc\<close>, the
  boundary of that frame's cycle at or after \<open>now\<close>; if it is planned, the frame keeps it.
  In both cases the tile becomes done and draws the square if and only if
  \<open>now \<ge> stopAtMs\<close>, and otherwise keeps \<open>t0\<close> and draws the loop. With \<open>HOLD_MS = 1500\<close>,
  \<open>t0 = 1000\<close> and \<open>now = 2000\<close> the planned stop is \<open>6400\<close>.

  Second, a whole run: from a reachable state in which the tile is triggered at \<open>t0\<close> with no
  stop planned, over every admissible run of events in which \<open>HOLD_MS\<close> keeps one value and
  no frame begins a new long press, the tile is still triggered at \<open>t0\<close> or done; a planned
  stop lies a whole number of cycles after \<open>t0\<close>, for the cycle \<open>3 * (HALF_MS + HOLD_MS)\<close>
  that is also the current \<open>CYCLE_MS\<close>, so the elapsed time at the stop has remainder 0; a
  done tile has its stop at or before the clock, and a triggered tile with a planned stop has
  it after the clock. So under these two conditions the tile completes whole cycles and is
  not done before the boundary.
\<close>

theorem release_plans_stop_at_cycle_boundary:
  "(reachable s \<and> admissible (Draw realNow) s \<and> iy < ROWS \<and> ix < COLS
    \<and> s' = step (Draw realNow) s \<and> \<not> isLongPress s'
    \<and> t0 = startMs s ! iy ! ix \<and> 0 \<le> t0 \<and> now = logicalNow s' \<and> cyc = CYCLE_MS s'
    \<longrightarrow>
      (stopAtMs s ! iy ! ix = - 1 \<longrightarrow>
         stopAtMs s' ! iy ! ix = t0 + of_int \<lceil>(now - t0) / cyc\<rceil> * cyc)
      \<and> (stopAtMs s ! iy ! ix \<noteq> - 1 \<longrightarrow> stopAtMs s' ! iy ! ix = stopAtMs s ! iy ! ix)
      \<and> startMs s' ! iy ! ix = (if stopAtMs s' ! iy ! ix \<le> now then - 2 else t0)
      \<and> snd (drawFrame realNow s) ! iy ! ix
          = (if stopAtMs s' ! iy ! ix \<le> now then drawShape s' (sqrX s') (sqrY s')
             else drawLoopCycle s' (now - t0) (sScale s'))
      \<and> cyc = 3 * (HALF_MS + HOLD_MS s)
      \<and> now \<le> t0 + of_int \<lceil>(now - t0) / cyc\<rceil> * cyc
      \<and> t0 + of_int \<lceil>(now - t0) / cyc\<rceil> * cyc < now + cyc
      \<and> (\<exists>n::nat. t0 + of_int \<lceil>(now - t0) / cyc\<rceil> * cyc = t0 + real n * cyc)
      \<and> js_rem (of_int \<lceil>(now - t0) / cyc\<rceil> * cyc) cyc = 0
      \<and> (stopAtMs s ! iy ! ix = - 1 \<longrightarrow> stopAtMs s' ! iy ! ix \<noteq> - 1)
      \<and> (HOLD_MS s = 1500 \<and> t0 = 1000 \<and> now = 2000 \<and> stopAtMs s ! iy ! ix = - 1
           \<longrightarrow> stopAtMs s' ! iy ! ix = 6400))
   \<and> (reachable s0 \<and> jy < ROWS \<and> jx < COLS
       \<and> startMs s0 ! jy ! jx = u0 \<and> 0 \<le> u0 \<and> stopAtMs s0 ! jy ! jx = - 1
       \<and> admissibleRun evs s0 \<and> noNewGesture evs s0 \<and> holdConstant h evs s0
       \<and> c = 3 * (HALF_MS + h)
       \<longrightarrow>
         (startMs (run evs s0) ! jy ! jx = u0 \<or> startMs (run evs s0) ! jy ! jx = - 2)
         \<and> (stopAtMs (run evs s0) ! jy ! jx = - 1
              \<or> (\<exists>n::nat. stopAtMs (run evs s0) ! jy ! jx = u0 + real n * c)
                 \<and> CYCLE_MS (run evs s0) = c
                 \<and> js_rem (stopAtMs (run evs s0) ! jy ! jx - u0) (CYCLE_MS (run evs s0)) = 0)
         \<and> (startMs (run evs s0) ! jy ! jx = - 2 \<longrightarrow>
               stopAtMs (run evs s0) ! jy ! jx \<noteq> - 1
               \<and> stopAtMs (run evs s0) ! jy ! jx \<le> logicalNow (run evs s0))
         \<and> (startMs (run evs s0) ! jy ! jx = u0 \<and> stopAtMs (run evs s0) ! jy ! jx \<noteq> - 1
               \<longrightarrow> logicalNow (run evs s0) < stopAtMs (run evs s0) ! jy ! jx))"
proof (rule conjI; rule impI; elim conjE)
  assume "reachable s" "admissible (Draw realNow) s" "iy < ROWS" "ix < COLS"
    "s' = step (Draw realNow) s" "\<not> isLongPress s'" "t0 = startMs s ! iy ! ix" "0 \<le> t0"
    "now = logicalNow s'" "cyc = CYCLE_MS s'"
  then show "(stopAtMs s ! iy ! ix = - 1 \<longrightarrow>
         stopAtMs s' ! iy ! ix = t0 + of_int \<lceil>(now - t0) / cyc\<rceil> * cyc)
      \<and> (stopAtMs s ! iy ! ix \<noteq> - 1 \<longrightarrow> stopAtMs s' ! iy ! ix = stopAtMs s ! iy ! ix)
      \<and> startMs s' ! iy ! ix = (if stopAtMs s' ! iy ! ix \<le> now then - 2 else t0)
      \<and> snd (drawFrame realNow s) ! iy ! ix
          = (if stopAtMs s' ! iy ! ix \<le> now then drawShape s' (sqrX s') (sqrY s')
             else drawLoopCycle s' (now - t0) (sScale s'))
      \<and> cyc = 3 * (HALF_MS + HOLD_MS s)
      \<and> now \<le> t0 + of_int \<lceil>(now - t0) / cyc\<rceil> * cyc
      \<and> t0 + of_int \<lceil>(now - t0) / cyc\<rceil> * cyc < now + cyc
      \<and> (\<exists>n::nat. t0 + of_int \<lceil>(now - t0) / cyc\<rceil> * cyc = t0 + real n * cyc)
      \<and> js_rem (of_int \<lceil>(now - t0) / cyc\<rceil> * cyc) cyc = 0
      \<and> (stopAtMs s ! iy ! ix = - 1 \<longrightarrow> stopAtMs s' ! iy ! ix \<noteq> - 1)
      \<and> (HOLD_MS s = 1500 \<and> t0 = 1000 \<and> now = 2000 \<and> stopAtMs s ! iy ! ix = - 1
           \<longrightarrow> stopAtMs s' ! iy ! ix = 6400)"
    by (rule released_frame_tile)
next
  assume a: "reachable s0" "jy < ROWS" "jx < COLS" "startMs s0 ! jy ! jx = u0" "0 \<le> u0"
    "stopAtMs s0 ! jy ! jx = - 1" "admissibleRun evs s0" "noNewGesture evs s0"
    "holdConstant h evs s0" "c = 3 * (HALF_MS + h)"
  have J: "(startMs s0 ! jy ! jx = u0 \<or> startMs s0 ! jy ! jx = - 2)
         \<and> (stopAtMs s0 ! jy ! jx = - 1
              \<or> (\<exists>n::nat. stopAtMs s0 ! jy ! jx = u0 + real n * c) \<and> CYCLE_MS s0 = c)
         \<and> (startMs s0 ! jy ! jx = - 2 \<longrightarrow>
               stopAtMs s0 ! jy ! jx \<noteq> - 1 \<and> stopAtMs s0 ! jy ! jx \<le> logicalNow s0)
         \<and> (startMs s0 ! jy ! jx = u0 \<and> stopAtMs s0 ! jy ! jx \<noteq> - 1 \<longrightarrow>
               logicalNow s0 < stopAtMs s0 ! jy ! jx)"
    using a(4,5,6) by simp
  have h: "HOLD_MS s0 = h" using a(9) by (cases evs) simp_all
  have "HOLD_MIN \<le> h" using reachable_inv[OF a(1)] h by (simp add: sketchInv_def)
  then have c0: "c \<noteq> 0" using a(10) by (simp add: HALF_MS_def HOLD_MIN_def)
  note run = tile_stop_run[OF a(1,7,8,9,2,3,5,10) J]
  have "js_rem (stopAtMs (run evs s0) ! jy ! jx - u0) (CYCLE_MS (run evs s0)) = 0"
    if "\<exists>n::nat. stopAtMs (run evs s0) ! jy ! jx = u0 + real n * c" "CYCLE_MS (run evs s0) = c"
    using that nat_cycles_rem[OF c0] by auto
  with run show "(startMs (run evs s0) ! jy ! jx = u0 \<or> startMs (run evs s0) ! jy ! jx = - 2)
         \<and> (stopAtMs (run evs s0) ! jy ! jx = - 1
              \<or> (\<exists>n::nat. stopAtMs (run evs s0) ! jy ! jx = u0 + real n * c)
                 \<and> CYCLE_MS (run evs s0) = c
                 \<and> js_rem (stopAtMs (run evs s0) ! jy ! jx - u0) (CYCLE_MS (run evs s0)) = 0)
         \<and> (startMs (run evs s0) ! jy ! jx = - 2 \<longrightarrow>
               stopAtMs (run evs s0) ! jy ! jx \<noteq> - 1
               \<and> stopAtMs (run evs s0) ! jy ! jx \<le> logicalNow (run evs s0))
         \<and> (startMs (run evs s0) ! jy ! jx = u0 \<and> stopAtMs (run evs s0) ! jy ! jx \<noteq> - 1
               \<longrightarrow> logicalNow (run evs s0) < stopAtMs (run evs s0) ! jy ! jx)"
    by blast
qed

theorem release_plans_stop_at_cycle_boundary_witness:
  "reachable demoReleased \<and> admissible (Draw 2000) demoReleased \<and> 0 < ROWS \<and> 0 < COLS
   \<and> \<not> isLongPress (step (Draw 2000) demoReleased)
   \<and> startMs demoReleased ! 0 ! 0 = 1000 \<and> stopAtMs demoReleased ! 0 ! 0 = - 1
   \<and> HOLD_MS demoReleased = 1500
   \<and> logicalNow (step (Draw 2000) demoReleased) = 2000
   \<and> CYCLE_MS (step (Draw 2000) demoReleased) = 5400
   \<and> stopAtMs (step (Draw 2000) demoReleased) ! 0 ! 0 = 6400
   \<and> startMs (step (Draw 2000) demoReleased) ! 0 ! 0 = 1000
   \<and> reachable demoLongPress
   \<and> startMs demoLongPress ! 0 ! 0 = 1000 \<and> stopAtMs demoLongPress ! 0 ! 0 = - 1
   \<and> admissibleRun [MouseReleased, Draw 2000, Draw 6400] demoLongPress
   \<and> noNewGesture [MouseReleased, Draw 2000, Draw 6400] demoLongPress
   \<and> holdConstant 1500 [MouseReleased, Draw 2000, Draw 6400] demoLongPress
   \<and> startMs (run [MouseReleased, Draw 2000, Draw 6400] demoLongPress) ! 0 ! 0 = - 2
   \<and> stopAtMs (run [MouseReleased, Draw 2000, Draw 6400] demoLongPress) ! 0 ! 0
        \<le> logicalNow (run [MouseReleased, Draw 2000, Draw 6400] demoLongPress)
   \<and> js_rem (stopAtMs (run [MouseReleased, Draw 2000, Draw 6400] demoLongPress) ! 0 ! 0 - 1000)
        (CYCLE_MS (run [MouseReleased, Draw 2000, Draw 6400] demoLongPress)) = 0"
proof -
  let ?s' = "step (Draw 2000) demoReleased"
  let ?evs = "[MouseReleased, Draw 2000, Draw 6400]"
  let ?T = "run ?evs demoLongPress"
  have adm: "admissible (Draw 2000) demoReleased" by (simp add: demoReleased_fields)
  have b: "0 < ROWS" "0 < COLS" by (simp_all add: ROWS_def COLS_def)
  have t0: "0 \<le> (1000::real)" by simp
  have c: "(5400::real) = 3 * (HALF_MS + 1500)" by (simp add: HALF_MS_def)
  note th = release_plans_stop_at_cycle_boundary[where s = demoReleased and realNow = 2000
      and iy = 0 and ix = 0 and s' = ?s' and ?t0.0 = 1000 and now = 2000 and cyc = 5400
      and ?s0.0 = demoLongPress and jy = 0 and jx = 0 and ?u0.0 = 1000 and evs = ?evs
      and h = 1500 and c = 5400]
  have frame: "reachable demoReleased \<and> admissible (Draw 2000) demoReleased
      \<and> 0 < ROWS \<and> 0 < COLS \<and> ?s' = step (Draw 2000) demoReleased \<and> \<not> isLongPress ?s'
      \<and> 1000 = startMs demoReleased ! 0 ! 0 \<and> 0 \<le> (1000::real)
      \<and> 2000 = logicalNow ?s' \<and> 5400 = CYCLE_MS ?s'"
    using demoReleased_fields(1,9) adm b demoStopping_fields(3,4,6) by simp
  have runh: "reachable demoLongPress \<and> 0 < ROWS \<and> 0 < COLS
       \<and> startMs demoLongPress ! 0 ! 0 = 1000 \<and> 0 \<le> (1000::real)
       \<and> stopAtMs demoLongPress ! 0 ! 0 = - 1
       \<and> admissibleRun ?evs demoLongPress \<and> noNewGesture ?evs demoLongPress
       \<and> holdConstant 1500 ?evs demoLongPress \<and> (5400::real) = 3 * (HALF_MS + 1500)"
    using demoLongPress_fields(1,11,12) b demoFinish_run(1,2,3) c t0 by blast
  have stop: "stopAtMs ?s' ! 0 ! 0 = 6400"
    using th frame demoReleased_fields(8,10) by blast
  have "startMs ?s' ! 0 ! 0 = (if stopAtMs ?s' ! 0 ! 0 \<le> 2000 then - 2 else 1000)"
    using th frame by blast
  then have start: "startMs ?s' ! 0 ! 0 = 1000" by (simp only: stop) simp
  have fin: "startMs ?T ! 0 ! 0 = - 2"
    unfolding demoFinish_run(4) by (rule demoDone)
  have r1: "startMs ?T ! 0 ! 0 = - 2 \<longrightarrow>
               stopAtMs ?T ! 0 ! 0 \<noteq> - 1 \<and> stopAtMs ?T ! 0 ! 0 \<le> logicalNow ?T"
    using th runh by blast
  have r2: "stopAtMs ?T ! 0 ! 0 = - 1
              \<or> (\<exists>n::nat. stopAtMs ?T ! 0 ! 0 = 1000 + real n * 5400)
                 \<and> CYCLE_MS ?T = 5400
                 \<and> js_rem (stopAtMs ?T ! 0 ! 0 - 1000) (CYCLE_MS ?T) = 0"
    using th runh by blast
  have le: "stopAtMs ?T ! 0 ! 0 \<le> logicalNow ?T" and ne: "stopAtMs ?T ! 0 ! 0 \<noteq> - 1"
    using r1 fin by blast+
  have rem: "js_rem (stopAtMs ?T ! 0 ! 0 - 1000) (CYCLE_MS ?T) = 0"
    using r2 ne by blast
  show ?thesis
    using demoReleased_fields(1,8,9,10) adm b demoStopping_fields(3,4,6) stop start
      demoLongPress_fields(1,11,12) demoFinish_run(1,2,3) fin le rem
    by blast
qed

text \<open>
  Claim C4. Over any admissible run of events from a reachable state in which no frame
  begins a new gesture's long press, the phase of every tile (unset, triggered, done) never
  decreases, a triggered tile keeps its trigger time for as long as it is triggered, and a
  done tile stays done: a tile goes from unset to triggered to done at most once per
  gesture. While \<open>isLongPress\<close> holds no tile is done, so the guard \<open>startMs < 0\<close> of the
  trigger never meets the sentinel \<open>-2\<close>. In the frame that begins a long press every tile is
  unset again or freshly triggered in that frame.
\<close>

theorem tile_lifecycle_once_per_gesture:
  assumes "reachable s" "admissibleRun evs s" "noNewGesture evs s" "iy < ROWS" "ix < COLS"
  shows "tilePhase (startMs s ! iy ! ix) \<le> tilePhase (startMs (run evs s) ! iy ! ix)
         \<and> (tilePhase (startMs s ! iy ! ix) = 1 \<and> tilePhase (startMs (run evs s) ! iy ! ix) = 1
            \<longrightarrow> startMs (run evs s) ! iy ! ix = startMs s ! iy ! ix)
         \<and> (startMs s ! iy ! ix = - 2 \<longrightarrow> startMs (run evs s) ! iy ! ix = - 2)
         \<and> (isLongPress s \<longrightarrow> startMs s ! iy ! ix \<noteq> - 2)
         \<and> (\<forall>r. admissible (Draw r) s \<and> longPressBegins (Draw r) s \<longrightarrow>
               startMs (step (Draw r) s) ! iy ! ix = - 1
               \<or> startMs (step (Draw r) s) ! iy ! ix = logicalNow (step (Draw r) s))"
proof -
  have i: "sketchInv s" using assms(1) by (rule reachable_inv)
  have a: "tilePhase (startMs s ! iy ! ix) \<le> tilePhase (startMs (run evs s) ! iy ! ix)
         \<and> (tilePhase (startMs s ! iy ! ix) = 1 \<and> tilePhase (startMs (run evs s) ! iy ! ix) = 1
            \<longrightarrow> startMs (run evs s) ! iy ! ix = startMs s ! iy ! ix)"
    by (rule tile_run_order[OF i assms(2,3,4,5)])
  have ph: "tilePhase a \<le> 2" for a by (simp add: tilePhase_def)
  have b: "startMs s ! iy ! ix = - 2 \<longrightarrow> startMs (run evs s) ! iy ! ix = - 2"
    using a ph[of "startMs (run evs s) ! iy ! ix"]
    by (auto simp add: tilePhase_simps(2) tilePhase_simps(4)[symmetric]
          simp del: tilePhase_simps(4))
  have c: "isLongPress s \<longrightarrow> startMs s ! iy ! ix \<noteq> - 2"
    using i assms(4,5) by (simp add: sketchInv_def tilesInv_def)
  have d: "\<forall>r. admissible (Draw r) s \<and> longPressBegins (Draw r) s \<longrightarrow>
               startMs (step (Draw r) s) ! iy ! ix = - 1
               \<or> startMs (step (Draw r) s) ! iy ! ix = logicalNow (step (Draw r) s)"
    using gesture_start_tiles[OF i _ _ assms(4,5)] by blast
  from a b c d show ?thesis by blast
qed

theorem tile_lifecycle_once_per_gesture_witness:
  "reachable demoLongPress
   \<and> admissibleRun [MouseReleased, Draw 2000, Draw 6400] demoLongPress
   \<and> noNewGesture [MouseReleased, Draw 2000, Draw 6400] demoLongPress
   \<and> 0 < ROWS \<and> 0 < COLS
   \<and> startMs demoLongPress ! 0 ! 0 = 1000
   \<and> startMs (run [MouseReleased, Draw 2000, Draw 6400] demoLongPress) ! 0 ! 0 = - 2
   \<and> tilePhase (startMs demoLongPress ! 0 ! 0)
        \<le> tilePhase (startMs (run [MouseReleased, Draw 2000, Draw 6400] demoLongPress) ! 0 ! 0)"
proof -
  let ?evs = "[MouseReleased, Draw 2000, Draw 6400]"
  have s1: "step MouseReleased demoLongPress = demoReleased" by (simp add: demoReleased_def)
  have adm: "admissibleRun ?evs demoLongPress"
    unfolding admissibleRun.simps s1 admissible.simps
    by (simp only: demoReleased_fields demoStopping_fields) simp
  have ng: "noNewGesture ?evs demoLongPress"
    unfolding noNewGesture.simps s1 longPressBegins.simps
    using demoReleased_fields(4) demoStopping_fields(2) by blast
  have b: "0 < ROWS" "0 < COLS" by (simp_all add: ROWS_def COLS_def)
  have fin: "startMs (run ?evs demoLongPress) ! 0 ! 0 = - 2"
    unfolding run.simps s1 by (rule demoDone)
  have "tilePhase (startMs demoLongPress ! 0 ! 0)
        \<le> tilePhase (startMs (run ?evs demoLongPress) ! 0 ! 0)"
    using tile_lifecycle_once_per_gesture[OF demoLongPress_fields(1) adm ng b] by blast
  then show ?thesis
    using demoLongPress_fields(1,11) adm ng b fin by blast
qed

subsection \<open>The long press\<close>

text \<open>
  Claim C3, as stated: with \<open>LONGPRESS_MS = 350\<close> and \<open>EMIT_INTERVAL_MS = 40\<close>, a press
  held without moving for 400 ms of logical time produces exactly one emitter. This fails:
  after a press right after start-up and frames at 350, 390 and 400 ms, the press has been
  held for 400 ms and there are two emitters, spawned at 350 and at 390.
\<close>

theorem hold_400ms_single_emitter_counterexample:
  "logicalNow (run [MousePressed 10 10, Draw 350, Draw 390, Draw 400] demoStart)
     - downAtMs (run [MousePressed 10 10, Draw 350, Draw 390, Draw 400] demoStart) = 400
   \<and> emitters (run [MousePressed 10 10, Draw 350, Draw 390, Draw 400] demoStart)
       = [\<lparr>em_t0 = 350, em_x = 10, em_y = 10\<rparr>, \<lparr>em_t0 = 390, em_x = 10, em_y = 10\<rparr>]
   \<and> length (emitters (run [MousePressed 10 10, Draw 350, Draw 390, Draw 400] demoStart)) \<noteq> 1"
proof -
  let ?p = "step (MousePressed 10 10) demoStart"
  let ?s1 = "step (Draw 350) ?p"
  let ?s2 = "step (Draw 390) ?s1"
  let ?s3 = "step (Draw 400) ?s2"
  have mr0: "172 \<le> maxReachDist demoStart"
    using reachable_inv[OF demoStart_reachable] by (simp add: sketchInv_def)
  have p: "\<not> active (knob ?p)" "\<not> clockPaused ?p" "isPointerDown ?p" "\<not> isLongPress ?p"
    "logicalNow ?p = 0" "lastReal ?p = 0" "downAtMs ?p = 0"
    "lastPointer ?p = \<lparr>pt_x = 10, pt_y = 10\<rparr>" "maxReachDist ?p = maxReachDist demoStart"
    by (simp_all add: mousePressed_def demoStart_clock)
  have lp: "LONGPRESS_MS \<le> logicalNow ?p + (350 - lastReal ?p) - downAtMs ?p"
    unfolding p by (simp add: LONGPRESS_MS_def)
  have mrp: "0 < maxReachDist ?p" unfolding p using mr0 by simp
  note d = frame_detect[OF p(1,2,3,4) lp mrp]
  have s1: "\<not> active (knob ?s1)" "\<not> clockPaused ?s1" "isLongPress ?s1"
    "logicalNow ?s1 = 350" "lastReal ?s1 = 350" "lastEmitMs ?s1 = 350" "downAtMs ?s1 = 0"
    "emitters ?s1 = [\<lparr>em_t0 = 350, em_x = 10, em_y = 10\<rparr>]"
    "lastPointer ?s1 = \<lparr>pt_x = 10, pt_y = 10\<rparr>" "maxReachDist ?s1 = maxReachDist demoStart"
  proof -
    show "isLongPress ?s1" by (rule d(3))
    show "logicalNow ?s1 = 350" "lastEmitMs ?s1 = 350"
      "emitters ?s1 = [\<lparr>em_t0 = 350, em_x = 10, em_y = 10\<rparr>]"
      unfolding d(1,2,4) p by simp_all
    show "\<not> active (knob ?s1)" "\<not> clockPaused ?s1" "lastReal ?s1 = 350" "downAtMs ?s1 = 0"
      "lastPointer ?s1 = \<lparr>pt_x = 10, pt_y = 10\<rparr>" "maxReachDist ?s1 = maxReachDist demoStart"
      using p(1,7,8,9) by (simp_all add: frame_fields)
  qed
  have due: "EMIT_INTERVAL_MS \<le> logicalNow ?s1 + (390 - lastReal ?s1) - lastEmitMs ?s1"
    unfolding s1 by (simp add: EMIT_INTERVAL_MS_def)
  have room: "length (emitters ?s1) < MAX_EMITTERS" unfolding s1 by (simp add: MAX_EMITTERS_def)
  note e = frame_emit[OF s1(1,2,3) due room]
  have s2: "\<not> active (knob ?s2)" "\<not> clockPaused ?s2" "isLongPress ?s2"
    "logicalNow ?s2 = 390" "lastReal ?s2 = 390" "lastEmitMs ?s2 = 390" "downAtMs ?s2 = 0"
    "emitters ?s2 = [\<lparr>em_t0 = 350, em_x = 10, em_y = 10\<rparr>, \<lparr>em_t0 = 390, em_x = 10, em_y = 10\<rparr>]"
    "maxReachDist ?s2 = maxReachDist demoStart"
  proof -
    show "isLongPress ?s2" by (rule e(3))
    show "logicalNow ?s2 = 390" "lastEmitMs ?s2 = 390"
      unfolding e(2,4) s1 by simp_all
    show "emitters ?s2 = [\<lparr>em_t0 = 350, em_x = 10, em_y = 10\<rparr>,
                          \<lparr>em_t0 = 390, em_x = 10, em_y = 10\<rparr>]"
      unfolding e(1) s1 using mr0 by (simp add: WAVE_SPEED_PX_PER_MS_def)
    show "\<not> active (knob ?s2)" "\<not> clockPaused ?s2" "lastReal ?s2 = 390" "downAtMs ?s2 = 0"
      "maxReachDist ?s2 = maxReachDist demoStart"
      using s1(1,7,10) by (simp_all add: frame_fields)
  qed
  have q: "logicalNow ?s2 + (400 - lastReal ?s2) - lastEmitMs ?s2 < EMIT_INTERVAL_MS"
    unfolding s2 by (simp add: EMIT_INTERVAL_MS_def)
  note f = frame_quiet[OF s2(1,2,3) q]
  have em3: "emitters ?s3 = [\<lparr>em_t0 = 350, em_x = 10, em_y = 10\<rparr>,
                             \<lparr>em_t0 = 390, em_x = 10, em_y = 10\<rparr>]"
    unfolding f(1) s2 using mr0 by (simp add: WAVE_SPEED_PX_PER_MS_def)
  have now3: "logicalNow ?s3 = 400" unfolding f(4) s2 by simp
  have down3: "downAtMs ?s3 = 0" using s2(7) by (simp add: frame_fields)
  have r: "run [MousePressed 10 10, Draw 350, Draw 390, Draw 400] demoStart = ?s3" by simp
  show ?thesis unfolding r em3 now3 down3 by simp
qed

text \<open>
  Claim C3, amended. A press held without moving (frames only) spawns its first emitter, at
  the press position, in the first frame whose logical time is at least \<open>LONGPRESS_MS\<close>
  after the press, and this is the only emitter through all following frames that come less
  than \<open>EMIT_INTERVAL_MS\<close> after that frame. In every frame that ends in a long press, a
  tile is what it was before the frame (unset, if the frame begins the long press) unless it
  was not triggered and \<open>hitByAnyEmitter\<close> holds at its centre, in which case it is triggered
  in this frame.
\<close>

theorem long_press_first_emitter:
  assumes "reachable s" "\<not> active (knob s)" "isPointerDown s" "\<not> isLongPress s"
    and "admissibleRun (map Draw (r1 # rs)) s"
    and "LONGPRESS_MS \<le> logicalNow s + (r1 - lastReal s) - downAtMs s"
    and "last (r1 # rs) - r1 < EMIT_INTERVAL_MS"
  shows "emitters (run (map Draw (r1 # rs)) s)
           = [\<lparr>em_t0 = logicalNow s + (r1 - lastReal s), em_x = pt_x (lastPointer s),
               em_y = pt_y (lastPointer s)\<rparr>]
         \<and> isLongPress (run (map Draw (r1 # rs)) s)
         \<and> (\<forall>s0 r iy ix.
               iy < ROWS \<and> ix < COLS \<and> isLongPress (step (Draw r) s0) \<longrightarrow>
               startMs (step (Draw r) s0) ! iy ! ix
                 = (if (if isLongPress s0 then startMs s0 ! iy ! ix else - 1) < 0
                       \<and> hitByAnyEmitter (step (Draw r) s0) (logicalNow (step (Draw r) s0))
                            (pt_x (tileCenter s0 ix iy)) (pt_y (tileCenter s0 ix iy))
                    then logicalNow (step (Draw r) s0)
                    else (if isLongPress s0 then startMs s0 ! iy ! ix else - 1)))"
proof -
  let ?s1 = "step (Draw r1) s"
  let ?e = "\<lparr>em_t0 = logicalNow s + (r1 - lastReal s), em_x = pt_x (lastPointer s),
               em_y = pt_y (lastPointer s)\<rparr>"
  have inv: "sketchInv s" using assms(1) by (rule reachable_inv)
  have np: "\<not> clockPaused s" using inv assms(2) by (simp add: sketchInv_def)
  have mr: "0 < maxReachDist s" using inv by (simp add: sketchInv_def)
  have adm: "admissible (Draw r1) s" "admissibleRun (map Draw rs) ?s1"
    using assms(5) by simp_all
  note fd = frame_detect[OF assms(2) np assms(3,4,6) mr]
  have i1: "sketchInv ?s1" using inv adm(1) by (rule sketchInv_step)
  have k1: "\<not> active (knob ?s1)" using assms(2) by (simp add: frame_fields)
  have lr: "lastReal ?s1 = r1" by (simp add: frame_fields)
  have le: "lastEmitMs ?s1 = em_t0 ?e" using fd(2) by simp
  have ag: "logicalNow ?s1 - em_t0 ?e = lastReal ?s1 - r1" using fd(4) by (simp only: lr) simp
  have la: "last (lastReal ?s1 # rs) - r1 < EMIT_INTERVAL_MS"
    using assms(7) by (simp only: lr)
  have "emitters (run (map Draw rs) ?s1) = [?e] \<and> isLongPress (run (map Draw rs) ?s1)"
    by (rule quiet_frames[OF i1 fd(3) k1 fd(1) le ag adm(2) la])
  then show ?thesis using frame_tiles_longPress by simp
qed

theorem long_press_first_emitter_witness:
  "reachable demoPressed \<and> \<not> active (knob demoPressed) \<and> isPointerDown demoPressed
   \<and> \<not> isLongPress demoPressed
   \<and> admissibleRun (map Draw [1000, 1016, 1033]) demoPressed
   \<and> LONGPRESS_MS \<le> logicalNow demoPressed + (1000 - lastReal demoPressed)
        - downAtMs demoPressed
   \<and> last [1000, 1016, 1033 :: real] - 1000 < EMIT_INTERVAL_MS
   \<and> emitters (run (map Draw [1000, 1016, 1033]) demoPressed)
       = [\<lparr>em_t0 = 1000, em_x = 207.5, em_y = 30.5\<rparr>]"
proof -
  have adm: "admissibleRun (map Draw [1000, 1016, 1033]) demoPressed"
    by (simp add: frame_fields demoPressed_fields)
  have lp: "LONGPRESS_MS \<le> logicalNow demoPressed + (1000 - lastReal demoPressed)
              - downAtMs demoPressed"
    by (simp add: demoPressed_fields LONGPRESS_MS_def)
  have la: "last [1000, 1016, 1033 :: real] - 1000 < EMIT_INTERVAL_MS"
    by (simp add: EMIT_INTERVAL_MS_def)
  have "emitters (run (map Draw [1000, 1016, 1033]) demoPressed)
          = [\<lparr>em_t0 = logicalNow demoPressed + (1000 - lastReal demoPressed),
              em_x = pt_x (lastPointer demoPressed), em_y = pt_y (lastPointer demoPressed)\<rparr>]"
    using long_press_first_emitter[OF demoPressed_fields(1,2,4,5) adm lp la] by blast
  then have "emitters (run (map Draw [1000, 1016, 1033]) demoPressed)
       = [\<lparr>em_t0 = 1000, em_x = 207.5, em_y = 30.5\<rparr>]"
    by (simp only: demoPressed_fields) simp
  then show ?thesis
    using demoPressed_fields(1,2,4,5) adm lp la by blast
qed

end
